theory Spec2Isabelle
  imports Main
begin

section \<open>Data model (src/pages/index.tsx, lines 7-33)\<close>

text \<open>
  A browser \<open>File\<close> is an immutable blob; the wizard only stores, compares and forwards
  references to it, so a file is modelled by its identity.
\<close>

type_synonym file_ref = nat

record Momo =
  country_code :: string
  number :: string

record KycFormValues =
  number :: string
  ghanaCardFront :: "file_ref option"
  ghanaCardBack :: "file_ref option"
  momo :: Momo
  selfie :: "file_ref option"

definition initialValues :: KycFormValues where
  "initialValues =
     \<lparr> number = '''', ghanaCardFront = None, ghanaCardBack = None,
       momo = \<lparr> country_code = ''+233'', Momo.number = '''' \<rparr>,
       selfie = None \<rparr>"

section \<open>Field validation (validationSchema, lines 35-57)\<close>

text \<open>
  The paths of the form, as Formik and Yup name them: \<open>number\<close>, \<open>ghanaCardFront\<close>,
  \<open>ghanaCardBack\<close>, \<open>momo.country_code\<close>, \<open>momo.number\<close>, \<open>selfie\<close>.
\<close>

datatype field =
  Number | GhanaCardFront | GhanaCardBack | MomoCountryCode | MomoNumber | Selfie

datatype field_value = Str string | Blob "file_ref option"

fun getIn :: "KycFormValues \<Rightarrow> field \<Rightarrow> field_value" where
  "getIn v Number = Str (KycFormValues.number v)"
| "getIn v GhanaCardFront = Blob (ghanaCardFront v)"
| "getIn v GhanaCardBack = Blob (ghanaCardBack v)"
| "getIn v MomoCountryCode = Str (country_code (momo v))"
| "getIn v MomoNumber = Str (Momo.number (momo v))"
| "getIn v Selfie = Blob (selfie v)"

definition is_digit :: "char \<Rightarrow> bool" where
  "is_digit c \<longleftrightarrow> c \<in> set ''0123456789''"

text \<open>The regular expression \<^verbatim>\<open>/^GHA-\d{9}-\d$/\<close> of line 40.\<close>

definition ghana_card_regex :: "string \<Rightarrow> bool" where
  "ghana_card_regex s \<longleftrightarrow>
     length s = 15 \<and> take 4 s = ''GHA-'' \<and> list_all is_digit (take 9 (drop 4 s)) \<and>
     s ! 13 = CHR ''-'' \<and> is_digit (s ! 14)"

text \<open>The regular expression \<^verbatim>\<open>/^[0-9]{6,15}$/\<close> of line 49.\<close>

definition momo_regex :: "string \<Rightarrow> bool" where
  "momo_regex s \<longleftrightarrow> 6 \<le> length s \<and> length s \<le> 15 \<and> list_all is_digit s"

text \<open>
  The two Yup tests the schema uses, each with its message. Formik hands an empty field
  to Yup as a missing value: \<open>required\<close> rejects it, as it rejects a missing (null) file,
  and \<open>matches\<close> does not test it. On any other string \<open>matches\<close> rejects what the
  expression does not match.
\<close>

datatype test = Required string | Matches "string \<Rightarrow> bool" string

fun test_fails :: "test \<Rightarrow> field_value \<Rightarrow> string option" where
  "test_fails (Required msg) (Str s) = (if s = [] then Some msg else None)"
| "test_fails (Required msg) (Blob f) = (if f = None then Some msg else None)"
| "test_fails (Matches re msg) (Str s) = (if s = [] \<or> re s then None else Some msg)"
| "test_fails (Matches re msg) (Blob f) = None"

text \<open>The first message of a path is the one Formik keeps for it.\<close>

fun first_error :: "test list \<Rightarrow> field_value \<Rightarrow> string option" where
  "first_error [] x = None"
| "first_error (t # ts) x =
     (case test_fails t x of Some msg \<Rightarrow> Some msg | None \<Rightarrow> first_error ts x)"

type_synonym schema = "(field \<times> test list) list"

type_synonym form_errors = "(field \<times> string) list"

definition validationSchema :: "schema list" where
  "validationSchema =
     [ [ (Number, [Required ''Ghana Card Number is required'',
                   Matches ghana_card_regex ''Invalid Ghana Card Number format'']),
         (GhanaCardFront, [Required ''Front image is required'']),
         (GhanaCardBack, [Required ''Back image is required'']) ],
       [ (MomoCountryCode, [Required ''Country code is required'']),
         (MomoNumber, [Matches momo_regex ''Invalid phone number'',
                       Required ''Phone number is required'']) ],
       [ (Selfie, [Required ''Selfie is required'']) ] ]"

fun validateSchema :: "schema \<Rightarrow> KycFormValues \<Rightarrow> form_errors" where
  "validateSchema [] v = []"
| "validateSchema ((f, ts) # sch) v =
     (case first_error ts (getIn v f) of
        Some msg \<Rightarrow> (f, msg) # validateSchema sch v
      | None \<Rightarrow> validateSchema sch v)"

text \<open>
  \<open>formik.validateForm()\<close> with \<open>validationSchema[currentStep]\<close> (line 190): an index
  outside the array gives no schema, and Formik then reports no error.
\<close>

definition validateForm :: "int \<Rightarrow> KycFormValues \<Rightarrow> form_errors" where
  "validateForm step v =
     (if 0 \<le> step \<and> step < int (length validationSchema)
      then validateSchema (validationSchema ! nat step) v else [])"

text \<open>The fields each step declares, and the rules of each step in the words of the specification.\<close>

fun step_fields :: "int \<Rightarrow> field set" where
  "step_fields step =
     (if step = 0 then {Number, GhanaCardFront, GhanaCardBack}
      else if step = 1 then {MomoCountryCode, MomoNumber}
      else if step = 2 then {Selfie} else {})"

definition step_rules_hold :: "int \<Rightarrow> KycFormValues \<Rightarrow> bool" where
  "step_rules_hold step v \<longleftrightarrow>
     (if step = 0 then
        ghana_card_regex (KycFormValues.number v) \<and> ghanaCardFront v \<noteq> None \<and> ghanaCardBack v \<noteq> None
      else if step = 1 then
        country_code (momo v) \<noteq> [] \<and> momo_regex (Momo.number (momo v))
      else if step = 2 then selfie v \<noteq> None
      else True)"

section \<open>The wizard's state (KycPage, lines 169-226)\<close>

text \<open>
  Formik keeps the form values in an object that it never writes to: every
  \<open>handleChange\<close> and \<open>setFieldValue\<close> builds a new object (copying the path it
  changes) and makes it the current one. The state of the page therefore holds a store
  of value objects and the reference of the current one, so that what the page keeps of
  \<open>values\<close> (line 210 keeps the reference itself, not a copy) is what the code keeps.
\<close>

type_synonym ref = int

datatype part = Text string | Binary file_ref

datatype effect =
  PostVerifyGhanaCard string
| PostCompleteKyc "(string \<times> part) list"
| ToastError string
| ToastSuccess string

record KycPage =
  currentStep :: int
  loading :: bool
  error :: string
  success :: string
  ghanaCardVerified :: bool
  verifyingGhanaCard :: bool
  ghanaCardError :: string
  showSuccessScreen :: bool
  fullName :: string
  submittedValues :: "ref option"
  store :: "ref \<Rightarrow> KycFormValues"
  nextRef :: ref
  valuesRef :: ref
  errors :: form_errors
  touched :: "field set"
  submitting :: "ref option"
  effects :: "effect list"

text \<open>
  \<open>submitting\<close> is the \<open>values\<close> argument of the \<open>onSubmit\<close> call that awaits its
  response (None when no call is in flight); \<open>effects\<close> is the trace of the requests
  sent and the notifications shown, oldest first.
\<close>

definition initialPage :: KycPage where
  "initialPage =
     \<lparr> currentStep = 0, loading = False, error = '''', success = '''',
       ghanaCardVerified = False, verifyingGhanaCard = False, ghanaCardError = '''',
       showSuccessScreen = False, fullName = '''', submittedValues = None,
       store = (\<lambda>_. initialValues), nextRef = 1, valuesRef = 0,
       errors = [], touched = {}, submitting = None, effects = [] \<rparr>"

definition formik_values :: "KycPage \<Rightarrow> KycFormValues" where
  "formik_values s = store s (valuesRef s)"

definition setValues :: "KycFormValues \<Rightarrow> KycPage \<Rightarrow> KycPage" where
  "setValues v s =
     s\<lparr> store := (store s)(nextRef s := v), valuesRef := nextRef s, nextRef := nextRef s + 1 \<rparr>"

definition emit :: "effect \<Rightarrow> KycPage \<Rightarrow> KycPage" where
  "emit e s = s\<lparr> effects := effects s @ [e] \<rparr>"

section \<open>Input handlers (lines 540-546, 568, 576, 626, 660)\<close>

definition changeNumber :: "string \<Rightarrow> KycPage \<Rightarrow> KycPage" where
  "changeNumber n s =
     (setValues ((formik_values s)\<lparr> KycFormValues.number := n \<rparr>) s)
       \<lparr> ghanaCardVerified := False, ghanaCardError := '''' \<rparr>"

definition setGhanaCardFront :: "file_ref option \<Rightarrow> KycPage \<Rightarrow> KycPage" where
  "setGhanaCardFront f s = setValues ((formik_values s)\<lparr> ghanaCardFront := f \<rparr>) s"

definition setGhanaCardBack :: "file_ref option \<Rightarrow> KycPage \<Rightarrow> KycPage" where
  "setGhanaCardBack f s = setValues ((formik_values s)\<lparr> ghanaCardBack := f \<rparr>) s"

definition changeMomoCountryCode :: "string \<Rightarrow> KycPage \<Rightarrow> KycPage" where
  "changeMomoCountryCode c s =
     setValues ((formik_values s)\<lparr> momo := (momo (formik_values s))\<lparr> country_code := c \<rparr> \<rparr>) s"

definition changeMomoNumber :: "string \<Rightarrow> KycPage \<Rightarrow> KycPage" where
  "changeMomoNumber n s =
     setValues ((formik_values s)\<lparr> momo := (momo (formik_values s))\<lparr> Momo.number := n \<rparr> \<rparr>) s"

definition setSelfie :: "file_ref option \<Rightarrow> KycPage \<Rightarrow> KycPage" where
  "setSelfie f s = setValues ((formik_values s)\<lparr> selfie := f \<rparr>) s"

section \<open>Remote responses\<close>

text \<open>
  What \<open>await axios.post\<close> can give: a response with its body, or a thrown value. Of a
  thrown Axios error the handlers read \<open>err.response?.data?.message\<close> and \<open>err.message\<close>;
  of any other \<open>Error\<close> only \<open>err.message\<close>.
\<close>

datatype failure =
  AxiosError "string option" string
| OtherError string
| NotAnError

record verify_data =
  verified :: bool
  message :: "string option"

record kyc_data =
  message :: "string option"
  full_name :: "string option"

datatype verify_outcome = VerifyResolved "verify_data option" | VerifyRejected failure

text \<open>
  \<open>KycNoData msg\<close> is a response whose body is null: line 209 then raises a TypeError
  whose text \<open>msg\<close> is the JavaScript engine's.
\<close>

datatype kyc_outcome = KycResolved kyc_data | KycNoData string | KycRejected failure

text \<open>JavaScript's \<open>a || b\<close> on an optional string: a missing and an empty \<open>a\<close> both give \<open>b\<close>.\<close>

definition js_or :: "string option \<Rightarrow> string \<Rightarrow> string" where
  "js_or a b = (case a of None \<Rightarrow> b | Some m \<Rightarrow> if m = [] then b else m)"

text \<open>The message a \<open>catch\<close> block computes (lines 214-219 and 248-253).\<close>

fun catch_message :: "string \<Rightarrow> failure \<Rightarrow> string" where
  "catch_message dflt (AxiosError body_message err_message) =
     js_or body_message (js_or (Some err_message) dflt)"
| "catch_message dflt (OtherError err_message) = err_message"
| "catch_message dflt NotAnError = dflt"

section \<open>The Continue button (handleNext, lines 228-289)\<close>

text \<open>
  \<open>handleNext\<close> runs up to its \<open>await axios.post\<close>; \<open>handleNext_resume\<close> is the rest of
  the function, run when the request settles. The validation that \<open>handleNext\<close> awaits
  first is local and is taken together with the click.
\<close>

definition handleNext :: "KycPage \<Rightarrow> KycPage" where
  "handleNext s =
     (let errs = validateForm (currentStep s) (formik_values s);
          s1 = s\<lparr> errors := errs \<rparr>
      in if errs = [] then
           if currentStep s = 0 \<and> \<not> ghanaCardVerified s then
             emit (PostVerifyGhanaCard (KycFormValues.number (formik_values s)))
               (s1\<lparr> ghanaCardError := '''', verifyingGhanaCard := True \<rparr>)
           else s1\<lparr> currentStep := currentStep s + 1 \<rparr>
         else if currentStep s = 0 then s1\<lparr> touched := {Number, GhanaCardFront, GhanaCardBack} \<rparr>
         else if currentStep s = 1 then s1\<lparr> touched := {MomoCountryCode, MomoNumber} \<rparr>
         else if currentStep s = 2 then s1\<lparr> touched := {Selfie} \<rparr>
         else s1)"

definition ghanaCardFailed :: "string \<Rightarrow> KycPage \<Rightarrow> KycPage" where
  "ghanaCardFailed msg s = emit (ToastError msg) (s\<lparr> ghanaCardError := msg \<rparr>)"

definition handleNext_resume :: "verify_outcome \<Rightarrow> KycPage \<Rightarrow> KycPage" where
  "handleNext_resume out s =
     (case out of
        VerifyResolved data \<Rightarrow>
          (case data of
             Some d \<Rightarrow>
               if verified d
               then s\<lparr> ghanaCardVerified := True, currentStep := currentStep s + 1 \<rparr>
               else ghanaCardFailed (js_or (verify_data.message d) ''Ghana Card verification failed.'') s
           | None \<Rightarrow> ghanaCardFailed ''Ghana Card verification failed.'' s)
      | VerifyRejected err \<Rightarrow>
          ghanaCardFailed (catch_message ''Ghana Card verification failed.'' err) s)
     \<lparr> verifyingGhanaCard := False \<rparr>"

section \<open>The Back button (handleBack, lines 291-293)\<close>

definition handleBack :: "KycPage \<Rightarrow> KycPage" where
  "handleBack s = s\<lparr> currentStep := max 0 (currentStep s - 1) \<rparr>"

section \<open>Submission (onSubmit, lines 193-225)\<close>

definition formData :: "KycFormValues \<Rightarrow> (string \<times> part) list" where
  "formData v =
     [(''number'', Text (KycFormValues.number v))]
     @ (case ghanaCardFront v of Some f \<Rightarrow> [(''ghanaCardFront'', Binary f)] | None \<Rightarrow> [])
     @ (case ghanaCardBack v of Some f \<Rightarrow> [(''ghanaCardBack'', Binary f)] | None \<Rightarrow> [])
     @ [(''momo_country_code'', Text (country_code (momo v))),
        (''momo_number'', Text (Momo.number (momo v)))]
     @ (case selfie v of Some f \<Rightarrow> [(''selfie'', Binary f)] | None \<Rightarrow> [])"

text \<open>\<open>onSubmit r\<close> is the call \<open>onSubmit(values)\<close> with \<open>values\<close> the object at \<open>r\<close>, up to its \<open>await\<close>.\<close>

definition onSubmit :: "ref \<Rightarrow> KycPage \<Rightarrow> KycPage" where
  "onSubmit r s =
     emit (PostCompleteKyc (formData (store s r)))
       (s\<lparr> loading := True, error := '''', success := '''', submitting := Some r \<rparr>)"

definition kycFailed :: "string \<Rightarrow> KycPage \<Rightarrow> KycPage" where
  "kycFailed msg s = emit (ToastError msg) (s\<lparr> error := msg \<rparr>)"

text \<open>The rest of \<open>onSubmit(values)\<close>, with \<open>values\<close> the object at \<open>r\<close>, when the request settles.\<close>

definition onSubmit_resume :: "ref \<Rightarrow> kyc_outcome \<Rightarrow> KycPage \<Rightarrow> KycPage" where
  "onSubmit_resume r out s =
     (case out of
        KycResolved d \<Rightarrow>
          emit (ToastSuccess (js_or (kyc_data.message d) ''KYC Completed!''))
            (s\<lparr> fullName := js_or (full_name d) '''',
               success := js_or (kyc_data.message d) ''KYC Completed!'',
               submittedValues := Some r,
               showSuccessScreen := True \<rparr>)
      | KycNoData msg \<Rightarrow> kycFailed msg (s\<lparr> fullName := '''' \<rparr>)
      | KycRejected err \<Rightarrow> kycFailed (catch_message ''Failed to complete KYC'' err) s)
     \<lparr> loading := False, submitting := None \<rparr>"

text \<open>
  Formik's \<open>handleSubmit\<close>, the form's submit handler (line 511): it marks every field
  touched, validates with the schema of the current step, and calls \<open>onSubmit\<close> with the
  current values object only when there is no error.
\<close>

definition handleSubmit :: "KycPage \<Rightarrow> KycPage" where
  "handleSubmit s =
     (let errs = validateForm (currentStep s) (formik_values s);
          s1 = s\<lparr> errors := errs, touched := UNIV \<rparr>
      in if errs = [] then onSubmit (valuesRef s) s1 else s1)"

section \<open>Events\<close>

text \<open>
  The events of a run are what the user does with the controls the page renders, and
  the two requests settling. A control that is not rendered, or is disabled, gives no
  event: the form is replaced by the summary once \<open>showSuccessScreen\<close> and \<open>submittedValues\<close>
  are set (line 296); each step renders its own inputs (lines 515, 583, 647); Back is
  rendered from step 1 on and disabled while \<open>loading\<close> (lines 679, 690); Continue is
  rendered before the last step and disabled while \<open>loading\<close> or \<open>verifyingGhanaCard\<close>
  (lines 695, 706); the submit button is rendered on the last step and disabled while
  \<open>loading\<close> (lines 721, 731).

  The browser has one more way to the form's submit handler, which is not an event of
  a run: at step 0 the form shows a single text input and no submit button, and the
  Enter key in that input submits the form, whatever \<open>loading\<close> and
  \<open>verifyingGhanaCard\<close> are. What \<open>handleSubmit\<close> does there is evaluated apart, on a
  page with no submission in flight.
\<close>

datatype event =
  ChangeNumber string
| ChooseFront "file_ref option"
| ChooseBack "file_ref option"
| ChangeMomoNumber string
| ChooseSelfie "file_ref option"
| ClickContinue
| ClickBack
| ClickSubmit
| VerifySettled verify_outcome
| KycSettled kyc_outcome

definition formShown :: "KycPage \<Rightarrow> bool" where
  "formShown s \<longleftrightarrow> \<not> (showSuccessScreen s \<and> submittedValues s \<noteq> None)"

fun enabled :: "event \<Rightarrow> KycPage \<Rightarrow> bool" where
  "enabled (ChangeNumber n) s \<longleftrightarrow> formShown s \<and> currentStep s = 0"
| "enabled (ChooseFront f) s \<longleftrightarrow> formShown s \<and> currentStep s = 0"
| "enabled (ChooseBack f) s \<longleftrightarrow> formShown s \<and> currentStep s = 0"
| "enabled (ChangeMomoNumber n) s \<longleftrightarrow> formShown s \<and> currentStep s = 1"
| "enabled (ChooseSelfie f) s \<longleftrightarrow> formShown s \<and> currentStep s = 2"
| "enabled ClickContinue s \<longleftrightarrow>
     formShown s \<and> currentStep s < 2 \<and> \<not> (loading s \<or> verifyingGhanaCard s)"
| "enabled ClickBack s \<longleftrightarrow> formShown s \<and> currentStep s > 0 \<and> \<not> loading s"
| "enabled ClickSubmit s \<longleftrightarrow> formShown s \<and> currentStep s = 2 \<and> \<not> loading s"
| "enabled (VerifySettled out) s \<longleftrightarrow> verifyingGhanaCard s"
| "enabled (KycSettled out) s \<longleftrightarrow> submitting s \<noteq> None"

fun handle :: "event \<Rightarrow> KycPage \<Rightarrow> KycPage" where
  "handle (ChangeNumber n) s = changeNumber n s"
| "handle (ChooseFront f) s = setGhanaCardFront f s"
| "handle (ChooseBack f) s = setGhanaCardBack f s"
| "handle (ChangeMomoNumber n) s = changeMomoNumber n s"
| "handle (ChooseSelfie f) s = setSelfie f s"
| "handle ClickContinue s = handleNext s"
| "handle ClickBack s = handleBack s"
| "handle ClickSubmit s = handleSubmit s"
| "handle (VerifySettled out) s = handleNext_resume out s"
| "handle (KycSettled out) s =
     (case submitting s of Some r \<Rightarrow> onSubmit_resume r out s | None \<Rightarrow> s)"

definition step :: "event \<Rightarrow> KycPage \<Rightarrow> KycPage" where
  "step e s = (if enabled e s then handle e s else s)"

definition run :: "event list \<Rightarrow> KycPage \<Rightarrow> KycPage" where
  "run es s = fold step es s"

section \<open>File previews (useFilePreview, lines 73-89)\<close>

text \<open>
  The browser's table of object URLs: \<open>URL.createObjectURL\<close> returns a URL never
  returned before and makes it live, \<open>URL.revokeObjectURL\<close> ends it.
\<close>

type_synonym url = int

record url_table =
  live :: "url set"
  fresh :: url

definition createObjectURL :: "url_table \<Rightarrow> url \<times> url_table" where
  "createObjectURL t = (fresh t, t\<lparr> live := insert (fresh t) (live t), fresh := fresh t + 1 \<rparr>)"

definition revokeObjectURL :: "url \<Rightarrow> url_table \<Rightarrow> url_table" where
  "revokeObjectURL u t = t\<lparr> live := live t - {u} \<rparr>"

text \<open>
  One use of the hook: the \<open>preview\<close> state, the dependency \<open>file\<close> of the effect that
  ran last, and the URL its cleanup function will revoke (None when the effect returned
  no cleanup).
\<close>

record file_preview =
  preview :: "url option"
  dep :: "file_ref option"
  cleanup :: "url option"

definition run_effect :: "file_ref option \<Rightarrow> file_preview \<Rightarrow> url_table \<Rightarrow> file_preview \<times> url_table" where
  "run_effect f h t =
     (case f of
        None \<Rightarrow> (h\<lparr> preview := None, dep := f, cleanup := None \<rparr>, t)
      | Some _ \<Rightarrow>
          (let (u, t') = createObjectURL t
           in (h\<lparr> preview := Some u, dep := f, cleanup := Some u \<rparr>, t')))"

definition run_cleanup :: "file_preview \<Rightarrow> url_table \<Rightarrow> url_table" where
  "run_cleanup h t = (case cleanup h of Some u \<Rightarrow> revokeObjectURL u t | None \<Rightarrow> t)"

text \<open>
  React runs the effect after the first render, and after a later render whose
  \<open>file\<close> is another object than the last one's it runs the cleanup and then the effect;
  on unmount it runs the cleanup. Each operation below is one such commit taken to its
  end: the cleanup, the effect, and the render that the effect's \<open>setPreview\<close> asks for.
\<close>

definition mount_preview :: "file_ref option \<Rightarrow> url_table \<Rightarrow> file_preview \<times> url_table" where
  "mount_preview f t = run_effect f \<lparr> preview = None, dep = f, cleanup = None \<rparr> t"

definition render_preview :: "file_ref option \<Rightarrow> file_preview \<Rightarrow> url_table \<Rightarrow> file_preview \<times> url_table" where
  "render_preview f h t = (if f = dep h then (h, t) else run_effect f h (run_cleanup h t))"

definition unmount_preview :: "file_preview \<Rightarrow> url_table \<Rightarrow> url_table" where
  "unmount_preview h t = run_cleanup h t"

text \<open>
  The slots of the form: one use of the hook for each file input (lines 107, 564-579,
  656-663), all on one table of URLs.
\<close>

datatype slot = FrontSlot | BackSlot | SelfieSlot

record previews =
  slots :: "slot \<Rightarrow> file_preview option"
  urls :: url_table

definition no_previews :: previews where
  "no_previews = \<lparr> slots = (\<lambda>_. None), urls = \<lparr> live = {}, fresh = 0 \<rparr> \<rparr>"

datatype preview_op = Assign slot "file_ref option" | Teardown slot

fun preview_step :: "preview_op \<Rightarrow> previews \<Rightarrow> previews" where
  "preview_step (Assign k f) m =
     (let (h, t) = (case slots m k of
                      None \<Rightarrow> mount_preview f (urls m)
                    | Some h0 \<Rightarrow> render_preview f h0 (urls m))
      in m\<lparr> slots := (slots m)(k := Some h), urls := t \<rparr>)"
| "preview_step (Teardown k) m =
     (case slots m k of
        None \<Rightarrow> m
      | Some h \<Rightarrow> m\<lparr> slots := (slots m)(k := None), urls := unmount_preview h (urls m) \<rparr>)"

definition preview_run :: "preview_op list \<Rightarrow> previews \<Rightarrow> previews" where
  "preview_run ops m = fold preview_step ops m"

text \<open>The handle a slot shows, and the handle a slot has created and not yet revoked.\<close>

definition shown :: "previews \<Rightarrow> slot \<Rightarrow> url option" where
  "shown m k = (case slots m k of None \<Rightarrow> None | Some h \<Rightarrow> preview h)"

definition owned :: "previews \<Rightarrow> slot \<Rightarrow> url option" where
  "owned m k = (case slots m k of None \<Rightarrow> None | Some h \<Rightarrow> cleanup h)"

section \<open>The vocabulary of the specification\<close>

text \<open>
  The specification speaks of one verification state; the page keeps it in three state
  variables (lines 174-176).
\<close>

datatype VerificationState = NotStarted | Pending | Verified | Failed string

definition verificationState :: "KycPage \<Rightarrow> VerificationState" where
  "verificationState s =
     (if verifyingGhanaCard s then Pending
      else if ghanaCardVerified s then Verified
      else if ghanaCardError s \<noteq> [] then Failed (ghanaCardError s)
      else NotStarted)"

text \<open>
  The failure message in the words of the specification: the message of the response
  body when there is one, otherwise the generic message.
\<close>

definition spec_message :: "string option \<Rightarrow> string \<Rightarrow> string" where
  "spec_message body_message generic =
     (case body_message of Some m \<Rightarrow> m | None \<Rightarrow> generic)"

section \<open>Sample inputs\<close>

definition sampleValues :: KycFormValues where
  "sampleValues =
     \<lparr> number = ''GHA-123456789-1'', ghanaCardFront = Some 1, ghanaCardBack = Some 2,
       momo = \<lparr> country_code = ''+233'', Momo.number = ''244000000'' \<rparr>,
       selfie = Some 3 \<rparr>"

text \<open>A response that verifies the card, one that refuses it, and a request that got no response.\<close>

definition verifiedResponse :: verify_outcome where
  "verifiedResponse = VerifyResolved (Some \<lparr> verified = True, verify_data.message = None \<rparr>)"

definition notFoundResponse :: verify_outcome where
  "notFoundResponse =
     VerifyResolved (Some \<lparr> verified = False, verify_data.message = Some ''Not found'' \<rparr>)"

definition networkError :: failure where
  "networkError = AxiosError None ''Network Error''"

text \<open>
  The page after the user has filled step 0; after the check of the card has passed;
  after the user has filled steps 1 and 2; and after the press on the submit button.
\<close>

definition pageFilled0 :: KycPage where
  "pageFilled0 =
     run [ChooseFront (Some 1), ChooseBack (Some 2), ChangeNumber ''GHA-123456789-1''] initialPage"

definition pageAwaitingVerify :: KycPage where
  "pageAwaitingVerify = step ClickContinue pageFilled0"

definition pageVerified :: KycPage where
  "pageVerified = step (VerifySettled verifiedResponse) pageAwaitingVerify"

definition pageFilled2 :: KycPage where
  "pageFilled2 =
     run [ChangeMomoNumber ''244000000'', ClickContinue, ChooseSelfie (Some 3)] pageVerified"

definition pageSubmitting :: KycPage where
  "pageSubmitting = step ClickSubmit pageFilled2"

text \<open>Whether a settled verification request reports the card as verified (line 240).\<close>

fun verify_succeeded :: "verify_outcome \<Rightarrow> bool" where
  "verify_succeeded (VerifyResolved (Some d)) = verified d"
| "verify_succeeded (VerifyResolved None) = False"
| "verify_succeeded (VerifyRejected err) = False"

text \<open>The page after the user has gone back to step 0 with the card verified.\<close>

definition pageBackAt0 :: KycPage where
  "pageBackAt0 = step ClickBack pageVerified"

section \<open>The snapshot of the summary (lines 181-186, 210, 296, 358-387)\<close>

text \<open>
  The summary renders the values object that \<open>submittedValues\<close> refers to. A mutation
  is a call of one of the input handlers, whatever control it comes from.
\<close>

definition snapshot :: "KycPage \<Rightarrow> KycFormValues option" where
  "snapshot s = map_option (store s) (submittedValues s)"

datatype mutation =
  SetNumber string
| SetGhanaCardFront "file_ref option"
| SetGhanaCardBack "file_ref option"
| SetMomoCountryCode string
| SetMomoNumber string
| SetSelfie "file_ref option"

fun mutate :: "mutation \<Rightarrow> KycPage \<Rightarrow> KycPage" where
  "mutate (SetNumber n) s = changeNumber n s"
| "mutate (SetGhanaCardFront f) s = setGhanaCardFront f s"
| "mutate (SetGhanaCardBack f) s = setGhanaCardBack f s"
| "mutate (SetMomoCountryCode c) s = changeMomoCountryCode c s"
| "mutate (SetMomoNumber n) s = changeMomoNumber n s"
| "mutate (SetSelfie f) s = setSelfie f s"

text \<open>Every reference the page holds is one that has been allocated.\<close>

definition refs_allocated :: "KycPage \<Rightarrow> bool" where
  "refs_allocated s \<longleftrightarrow>
     valuesRef s < nextRef s \<and>
     (case submittedValues s of None \<Rightarrow> True | Some r \<Rightarrow> r < nextRef s) \<and>
     (case submitting s of None \<Rightarrow> True | Some r \<Rightarrow> r < nextRef s)"

text \<open>The events up to the press on the submit button of the sample run.\<close>

definition sampleRun :: "event list" where
  "sampleRun =
     [ChooseFront (Some 1), ChooseBack (Some 2), ChangeNumber ''GHA-123456789-1'',
      ClickContinue, VerifySettled verifiedResponse,
      ChangeMomoNumber ''244000000'', ClickContinue, ChooseSelfie (Some 3), ClickSubmit]"

definition janeDoe :: kyc_data where
  "janeDoe = \<lparr> kyc_data.message = Some ''KYC Completed!'', full_name = Some ''Jane Doe'' \<rparr>"

section \<open>A number edited while its check is in flight\<close>

text \<open>
  The number input is not disabled while the verification request is in flight. These
  are the page after the user has replaced the number sent by another well-formed number
  and the request has then succeeded, and the page after the user has instead replaced
  it by a malformed number, the request has succeeded, and the user has gone on to
  submit.
\<close>

definition pageStale :: KycPage where
  "pageStale =
     run [ChangeNumber ''GHA-000000000-0'', VerifySettled verifiedResponse] pageAwaitingVerify"

text \<open>The page after that success, a step back and a press on Continue.\<close>

definition pageStaleCached :: KycPage where
  "pageStaleCached = run [ClickBack, ClickContinue] pageStale"

definition pageStaleSubmitted :: KycPage where
  "pageStaleSubmitted =
     run [ChangeNumber ''123'', VerifySettled verifiedResponse,
          ChangeMomoNumber ''244000000'', ClickContinue, ChooseSelfie (Some 3), ClickSubmit]
       pageAwaitingVerify"

section \<open>The handles of the file previews\<close>

text \<open>
  The handles the slots own; the slot an operation is about; and the state of the
  previews in which nothing is leaked or dangling: every slot shows exactly the handle
  it owns, and owns one exactly when it has a file; the live URLs are exactly the handles
  the slots own; no two slots own the same handle; and every live URL is older than the
  next fresh one.
\<close>

definition handles :: "previews \<Rightarrow> url set" where
  "handles m = {u. \<exists>k. owned m k = Some u}"

fun op_slot :: "preview_op \<Rightarrow> slot" where
  "op_slot (Assign k f) = k"
| "op_slot (Teardown k) = k"

definition previews_ok :: "previews \<Rightarrow> bool" where
  "previews_ok m \<longleftrightarrow>
     (\<forall>k h. slots m k = Some h \<longrightarrow>
        preview h = cleanup h \<and> (cleanup h = None \<longleftrightarrow> dep h = None)) \<and>
     live (urls m) = handles m \<and>
     (\<forall>k j u. owned m k = Some u \<and> owned m j = Some u \<longrightarrow> k = j) \<and>
     (\<forall>u \<in> live (urls m). u < fresh (urls m))"

text \<open>Whether an assignment gives the slot another file object than the one it has.\<close>

definition changes_file :: "previews \<Rightarrow> slot \<Rightarrow> file_ref option \<Rightarrow> bool" where
  "changes_file m k f \<longleftrightarrow> (case slots m k of None \<Rightarrow> True | Some h \<Rightarrow> f \<noteq> dep h)"

text \<open>The handle the slot of an operation owns once the operation is done.\<close>

definition next_handle :: "previews \<Rightarrow> preview_op \<Rightarrow> url option" where
  "next_handle m p =
     (case p of
        Assign k f \<Rightarrow>
          if f = None then None
          else if changes_file m k f then Some (fresh (urls m))
          else owned m k
      | Teardown k \<Rightarrow> None)"

text \<open>Two slots with a file each, as after the user has chosen both card images.\<close>

definition samplePreviews :: previews where
  "samplePreviews = preview_run [Assign FrontSlot (Some 1), Assign BackSlot (Some 2)] no_previews"

section \<open>Runs without an edit during the check\<close>

text \<open>
  An event is quiet when it is not an edit of a step-0 field made while the verification
  request is in flight. \<open>gated\<close> is what the two Continue gates establish: the step index
  is one of the three steps, a request in flight was sent from step 0 on valid step-0
  fields, and every step before the current one passes its validation.
\<close>

fun edits_step0 :: "event \<Rightarrow> bool" where
  "edits_step0 (ChangeNumber n) = True"
| "edits_step0 (ChooseFront f) = True"
| "edits_step0 (ChooseBack f) = True"
| "edits_step0 e = False"

definition quiet :: "event \<Rightarrow> KycPage \<Rightarrow> bool" where
  "quiet e s \<longleftrightarrow> \<not> (verifyingGhanaCard s \<and> edits_step0 e)"

fun quiet_run :: "event list \<Rightarrow> KycPage \<Rightarrow> bool" where
  "quiet_run [] s = True"
| "quiet_run (e # es) s = (quiet e s \<and> quiet_run es (step e s))"

definition gated :: "KycPage \<Rightarrow> bool" where
  "gated s \<longleftrightarrow>
     0 \<le> currentStep s \<and> currentStep s \<le> 2 \<and>
     (verifyingGhanaCard s \<longrightarrow> currentStep s = 0) \<and>
     (verifyingGhanaCard s \<or> 1 \<le> currentStep s \<longrightarrow> validateForm 0 (formik_values s) = []) \<and>
     (currentStep s = 2 \<longrightarrow> validateForm 1 (formik_values s) = [])"

section \<open>Properties of the field validation\<close>

lemma ghana_card_regex_nonempty: "ghana_card_regex s \<Longrightarrow> s \<noteq> []"
  by (auto simp: ghana_card_regex_def)

lemma momo_regex_nonempty: "momo_regex s \<Longrightarrow> s \<noteq> []"
  by (auto simp: momo_regex_def)

lemma ghana_card_regex_sample: "ghana_card_regex ''GHA-123456789-1''"
  by (simp add: ghana_card_regex_def is_digit_def)

lemma momo_regex_sample: "momo_regex ''244000000''"
  by (simp add: momo_regex_def is_digit_def)

lemma validateForm_0:
  "validateForm 0 v =
     (if KycFormValues.number v = [] then [(Number, ''Ghana Card Number is required'')]
      else if ghana_card_regex (KycFormValues.number v) then []
      else [(Number, ''Invalid Ghana Card Number format'')])
     @ (if ghanaCardFront v = None then [(GhanaCardFront, ''Front image is required'')] else [])
     @ (if ghanaCardBack v = None then [(GhanaCardBack, ''Back image is required'')] else [])"
  by (simp add: validateForm_def validationSchema_def)

lemma validateForm_1:
  "validateForm 1 v =
     (if country_code (momo v) = [] then [(MomoCountryCode, ''Country code is required'')] else [])
     @ (if Momo.number (momo v) = [] then [(MomoNumber, ''Phone number is required'')]
        else if momo_regex (Momo.number (momo v)) then []
        else [(MomoNumber, ''Invalid phone number'')])"
  by (simp add: validateForm_def validationSchema_def)

lemma validateForm_2:
  "validateForm 2 v = (if selfie v = None then [(Selfie, ''Selfie is required'')] else [])"
  by (simp add: validateForm_def validationSchema_def)

lemma validateForm_out_of_range: "n < 0 \<or> 2 < n \<Longrightarrow> validateForm n v = []"
  by (auto simp add: validateForm_def validationSchema_def)

lemma validateForm_0_iff: "validateForm 0 v = [] \<longleftrightarrow> step_rules_hold 0 v"
  by (auto simp add: validateForm_0 step_rules_hold_def dest: ghana_card_regex_nonempty)

lemma validateForm_1_iff: "validateForm 1 v = [] \<longleftrightarrow> step_rules_hold 1 v"
  by (auto simp add: validateForm_1 step_rules_hold_def dest: momo_regex_nonempty)

lemma validateForm_2_iff: "validateForm 2 v = [] \<longleftrightarrow> step_rules_hold 2 v"
  by (auto simp add: validateForm_2 step_rules_hold_def)

lemma validateForm_keys: "fst ` set (validateForm n v) \<subseteq> step_fields n"
proof -
  consider "n = 0" | "n = 1" | "n = 2" | "n < 0 \<or> 2 < n" by linarith
  then show ?thesis
  proof cases
    case 1 then show ?thesis by (auto simp add: validateForm_0 split: if_splits)
  next
    case 2 then show ?thesis by (auto simp add: validateForm_1 split: if_splits)
  next
    case 3 then show ?thesis by (auto simp add: validateForm_2 split: if_splits)
  next
    case 4 then show ?thesis by (simp add: validateForm_out_of_range)
  qed
qed

lemma sampleValues_valid:
  "step_rules_hold 0 sampleValues" "step_rules_hold 1 sampleValues" "step_rules_hold 2 sampleValues"
  by (simp_all add: step_rules_hold_def sampleValues_def ghana_card_regex_sample momo_regex_sample)

lemma initialValues_invalid:
  "\<not> step_rules_hold 0 initialValues" "\<not> step_rules_hold 1 initialValues"
  "\<not> step_rules_hold 2 initialValues"
  by (simp_all add: step_rules_hold_def initialValues_def ghana_card_regex_def momo_regex_def)

text \<open>
  Claim C7. For every form values and every step index 0, 1 or 2, the validation of the
  step returns no error when the rules of the step hold (step 0: the identity number
  matches the pattern and both card images are present; step 1: the country code is
  present and the mobile-money number matches its pattern; step 2: the selfie is
  present); when a rule of the step is violated it returns at least one error, and in
  both cases every path that carries an error is a field of that step, so that the
  fields of the other steps never appear.
\<close>

theorem validateForm_contract:
  "n \<in> {0, 1, 2} \<Longrightarrow>
     (step_rules_hold n v \<longrightarrow> validateForm n v = []) \<and>
     (\<not> step_rules_hold n v \<longrightarrow> validateForm n v \<noteq> []) \<and>
     fst ` set (validateForm n v) \<subseteq> step_fields n"
  using validateForm_0_iff validateForm_1_iff validateForm_2_iff validateForm_keys
  by auto

theorem validateForm_contract_witness:
  "(0::int) \<in> {0, 1, 2} \<and> step_rules_hold 0 sampleValues \<and> validateForm 0 sampleValues = [] \<and>
   (1::int) \<in> {0, 1, 2} \<and> \<not> step_rules_hold 1 initialValues \<and> validateForm 1 initialValues \<noteq> [] \<and>
   fst ` set (validateForm 1 initialValues) \<subseteq> {MomoCountryCode, MomoNumber}"
proof -
  have h0: "(0::int) \<in> {0, 1, 2}" and h1: "(1::int) \<in> {0, 1, 2}" by simp_all
  show ?thesis
    using validateForm_contract [OF h0, of sampleValues] validateForm_contract [OF h1, of initialValues]
      sampleValues_valid(1) initialValues_invalid(2)
    by simp
qed

section \<open>Properties of the Back button\<close>

text \<open>
  Claim C9. For every step index, Back moves from step n to step n - 1 when n is
  positive and changes nothing at step 0. It changes no field of the form values,
  validates nothing and sends no request, and the control is available whatever the
  validation errors and the verification state are: the form only has to be shown, past
  step 0 and not submitting.
\<close>

theorem handleBack_spec:
  "handleBack s = s\<lparr> currentStep := (if 0 < currentStep s then currentStep s - 1 else 0) \<rparr> \<and>
   (currentStep s = 0 \<longrightarrow> handleBack s = s) \<and>
   formik_values (handleBack s) = formik_values s \<and>
   effects (handleBack s) = effects s \<and>
   errors (handleBack s) = errors s \<and>
   verificationState (handleBack s) = verificationState s \<and>
   (formShown s \<and> 0 < currentStep s \<and> \<not> loading s \<longrightarrow> step ClickBack s = handleBack s)"
  by (auto simp add: handleBack_def formik_values_def step_def max_def verificationState_def)

theorem handleBack_spec_witness:
  "handleBack (initialPage\<lparr> currentStep := 2 \<rparr>) = initialPage\<lparr> currentStep := 1 \<rparr> \<and>
   currentStep initialPage = 0 \<and> handleBack initialPage = initialPage \<and>
   formShown (initialPage\<lparr> currentStep := 2 \<rparr>) \<and>
   step ClickBack (initialPage\<lparr> currentStep := 2 \<rparr>) = initialPage\<lparr> currentStep := 1 \<rparr>"
  using handleBack_spec [of "initialPage\<lparr> currentStep := 2 \<rparr>"] handleBack_spec [of initialPage]
  by (simp add: initialPage_def formShown_def)

section \<open>The sample pages\<close>

lemmas input_defs =
  changeNumber_def setGhanaCardFront_def setGhanaCardBack_def changeMomoCountryCode_def
  changeMomoNumber_def setSelfie_def setValues_def formik_values_def

lemmas handler_defs =
  handleNext_def handleNext_resume_def ghanaCardFailed_def handleBack_def handleSubmit_def
  onSubmit_def onSubmit_resume_def kycFailed_def emit_def

lemma pageFilled0_eq:
  "pageFilled0 =
     initialPage\<lparr> store := (\<lambda>_. initialValues)
         (1 := initialValues\<lparr> ghanaCardFront := Some 1 \<rparr>,
          2 := initialValues\<lparr> ghanaCardFront := Some 1, ghanaCardBack := Some 2 \<rparr>,
          3 := sampleValues\<lparr> momo := momo initialValues, selfie := None \<rparr>),
       nextRef := 4, valuesRef := 3 \<rparr>"
  by (simp add: pageFilled0_def run_def step_def initialPage_def input_defs formShown_def
      initialValues_def sampleValues_def)
lemmas eval_defs =
  run_def step_def initialPage_def formShown_def input_defs handler_defs initialValues_def
  sampleValues_def validateForm_0 validateForm_1 validateForm_2 ghana_card_regex_sample
  momo_regex_sample formData_def verifiedResponse_def notFoundResponse_def js_or_def

lemma pageAwaitingVerify_eq:
  "pageAwaitingVerify =
     pageFilled0\<lparr> verifyingGhanaCard := True,
       effects := [PostVerifyGhanaCard ''GHA-123456789-1''] \<rparr>"
  by (simp add: pageAwaitingVerify_def pageFilled0_eq eval_defs)

lemma pageVerified_eq:
  "pageVerified =
     pageFilled0\<lparr> currentStep := 1, ghanaCardVerified := True,
       effects := [PostVerifyGhanaCard ''GHA-123456789-1''] \<rparr>"
  by (simp add: pageVerified_def pageAwaitingVerify_eq pageFilled0_eq eval_defs)

lemma pageFilled2_eq:
  "pageFilled2 =
     pageVerified\<lparr> currentStep := 2,
       store := (store pageVerified)
         (4 := sampleValues\<lparr> selfie := None \<rparr>, 5 := sampleValues),
       nextRef := 6, valuesRef := 5 \<rparr>"
  by (simp add: pageFilled2_def pageVerified_eq pageFilled0_eq eval_defs)

lemma pageSubmitting_eq:
  "pageSubmitting =
     pageFilled2\<lparr> loading := True, submitting := Some 5, touched := UNIV,
       effects := [PostVerifyGhanaCard ''GHA-123456789-1'',
         PostCompleteKyc [(''number'', Text ''GHA-123456789-1''), (''ghanaCardFront'', Binary 1),
           (''ghanaCardBack'', Binary 2), (''momo_country_code'', Text ''+233''),
           (''momo_number'', Text ''244000000''), (''selfie'', Binary 3)]] \<rparr>"
  by (simp add: pageSubmitting_def pageFilled2_eq pageVerified_eq pageFilled0_eq eval_defs)

section \<open>Properties of the verification gate\<close>

lemma verify_settled_ok:
  assumes "verifyingGhanaCard s" "verify_succeeded out"
  shows "step (VerifySettled out) s =
     s\<lparr> ghanaCardVerified := True, currentStep := currentStep s + 1, verifyingGhanaCard := False \<rparr>"
  using assms by (cases out rule: verify_succeeded.cases) (simp_all add: step_def handler_defs)

lemma verify_settled_refused:
  assumes "verifyingGhanaCard s" "\<not> verified d"
  shows "step (VerifySettled (VerifyResolved (Some d))) s =
     s\<lparr> ghanaCardError := js_or (verify_data.message d) ''Ghana Card verification failed.'',
        effects := effects s
          @ [ToastError (js_or (verify_data.message d) ''Ghana Card verification failed.'')],
        verifyingGhanaCard := False \<rparr>"
  using assms by (simp add: step_def handler_defs)

lemma verify_settled_no_data:
  assumes "verifyingGhanaCard s"
  shows "step (VerifySettled (VerifyResolved None)) s =
     s\<lparr> ghanaCardError := ''Ghana Card verification failed.'',
        effects := effects s @ [ToastError ''Ghana Card verification failed.''],
        verifyingGhanaCard := False \<rparr>"
  using assms by (simp add: step_def handler_defs)

lemma verify_settled_rejected:
  assumes "verifyingGhanaCard s"
  shows "step (VerifySettled (VerifyRejected err)) s =
     s\<lparr> ghanaCardError := catch_message ''Ghana Card verification failed.'' err,
        effects := effects s
          @ [ToastError (catch_message ''Ghana Card verification failed.'' err)],
        verifyingGhanaCard := False \<rparr>"
  using assms by (simp add: step_def handler_defs)

lemma continue_calls_gate:
  assumes "formShown s" "currentStep s = 0" "\<not> loading s" "\<not> verifyingGhanaCard s"
    "\<not> ghanaCardVerified s" "validateForm 0 (formik_values s) = []"
  shows "step ClickContinue s =
     s\<lparr> errors := [], ghanaCardError := '''', verifyingGhanaCard := True,
        effects := effects s @ [PostVerifyGhanaCard (KycFormValues.number (formik_values s))] \<rparr>"
  using assms by (simp add: step_def handleNext_def emit_def)

lemma catch_message_axios:
  "catch_message generic (AxiosError body_message err_message) =
     (if body_message \<noteq> None \<and> body_message \<noteq> Some [] then the body_message
      else if err_message \<noteq> [] then err_message else generic)"
  by (auto simp add: js_or_def split: option.splits)

text \<open>
  Claim C1, as the code has it. For every form values whose step-0 fields pass
  validation, Continue at step 0 with no cached verification sends exactly one
  verification request, carrying the current identity number, and the page waits at
  step 0. A response with verified = true moves the page to step 1 and sends nothing
  more. A response with verified = false, or without a body, leaves the page at step 0
  and shows the message of the body when it has a non-empty one, otherwise the generic
  message. A request that fails leaves the page at step 0 and shows the message of the
  error's response body when it has a non-empty one, otherwise the error's own message
  when that is not empty, otherwise the generic message.
\<close>

theorem verification_gate:
  assumes "formShown s" "currentStep s = 0" "\<not> loading s" "\<not> verifyingGhanaCard s"
    "\<not> ghanaCardVerified s" "validateForm 0 (formik_values s) = []"
  shows
    "effects (step ClickContinue s) =
       effects s @ [PostVerifyGhanaCard (KycFormValues.number (formik_values s))] \<and>
     verificationState (step ClickContinue s) = Pending \<and>
     currentStep (step ClickContinue s) = 0 \<and>
     (verified d \<longrightarrow>
        currentStep (step (VerifySettled (VerifyResolved (Some d))) (step ClickContinue s)) = 1 \<and>
        verificationState (step (VerifySettled (VerifyResolved (Some d))) (step ClickContinue s)) = Verified \<and>
        effects (step (VerifySettled (VerifyResolved (Some d))) (step ClickContinue s)) =
          effects (step ClickContinue s)) \<and>
     (\<not> verified d \<longrightarrow>
        currentStep (step (VerifySettled (VerifyResolved (Some d))) (step ClickContinue s)) = 0 \<and>
        \<not> ghanaCardVerified (step (VerifySettled (VerifyResolved (Some d))) (step ClickContinue s)) \<and>
        \<not> verifyingGhanaCard (step (VerifySettled (VerifyResolved (Some d))) (step ClickContinue s)) \<and>
        ghanaCardError (step (VerifySettled (VerifyResolved (Some d))) (step ClickContinue s)) =
          (case verify_data.message d of
             None \<Rightarrow> ''Ghana Card verification failed.''
           | Some m \<Rightarrow> if m = [] then ''Ghana Card verification failed.'' else m) \<and>
        effects (step (VerifySettled (VerifyResolved (Some d))) (step ClickContinue s)) =
          effects (step ClickContinue s)
            @ [ToastError (ghanaCardError
                 (step (VerifySettled (VerifyResolved (Some d))) (step ClickContinue s)))]) \<and>
     currentStep (step (VerifySettled (VerifyResolved None)) (step ClickContinue s)) = 0 \<and>
     ghanaCardError (step (VerifySettled (VerifyResolved None)) (step ClickContinue s)) =
       ''Ghana Card verification failed.'' \<and>
     currentStep (step (VerifySettled (VerifyRejected err)) (step ClickContinue s)) = 0 \<and>
     \<not> ghanaCardVerified (step (VerifySettled (VerifyRejected err)) (step ClickContinue s)) \<and>
     \<not> verifyingGhanaCard (step (VerifySettled (VerifyRejected err)) (step ClickContinue s)) \<and>
     ghanaCardError (step (VerifySettled (VerifyRejected err)) (step ClickContinue s)) =
       catch_message ''Ghana Card verification failed.'' err \<and>
     effects (step (VerifySettled (VerifyRejected err)) (step ClickContinue s)) =
       effects (step ClickContinue s)
         @ [ToastError (catch_message ''Ghana Card verification failed.'' err)] \<and>
     catch_message ''Ghana Card verification failed.'' (AxiosError body_message err_message) =
       (if body_message \<noteq> None \<and> body_message \<noteq> Some [] then the body_message
        else if err_message \<noteq> [] then err_message else ''Ghana Card verification failed.'')"
proof -
  let ?s1 = "step ClickContinue s"
  have s1: "?s1 = s\<lparr> errors := [], ghanaCardError := '''', verifyingGhanaCard := True,
        effects := effects s @ [PostVerifyGhanaCard (KycFormValues.number (formik_values s))] \<rparr>"
    using assms by (rule continue_calls_gate)
  have pending: "verifyingGhanaCard ?s1" by (simp add: s1)
  have a: "effects ?s1 = effects s @ [PostVerifyGhanaCard (KycFormValues.number (formik_values s))]"
    "verificationState ?s1 = Pending" "currentStep ?s1 = 0"
    using assms by (simp_all add: s1 verificationState_def)
  have b: "verified d \<Longrightarrow>
        currentStep (step (VerifySettled (VerifyResolved (Some d))) ?s1) = 1 \<and>
        verificationState (step (VerifySettled (VerifyResolved (Some d))) ?s1) = Verified \<and>
        effects (step (VerifySettled (VerifyResolved (Some d))) ?s1) = effects ?s1"
    using assms by (simp add: verify_settled_ok [OF pending] verificationState_def) (simp add: s1)
  have c: "\<not> verified d \<Longrightarrow>
        currentStep (step (VerifySettled (VerifyResolved (Some d))) ?s1) = 0 \<and>
        \<not> ghanaCardVerified (step (VerifySettled (VerifyResolved (Some d))) ?s1) \<and>
        \<not> verifyingGhanaCard (step (VerifySettled (VerifyResolved (Some d))) ?s1) \<and>
        ghanaCardError (step (VerifySettled (VerifyResolved (Some d))) ?s1) =
          (case verify_data.message d of
             None \<Rightarrow> ''Ghana Card verification failed.''
           | Some m \<Rightarrow> if m = [] then ''Ghana Card verification failed.'' else m) \<and>
        effects (step (VerifySettled (VerifyResolved (Some d))) ?s1) =
          effects ?s1
            @ [ToastError (ghanaCardError (step (VerifySettled (VerifyResolved (Some d))) ?s1))]"
    using assms by (simp add: verify_settled_refused [OF pending] js_or_def) (simp add: s1)
  have d: "currentStep (step (VerifySettled (VerifyResolved None)) ?s1) = 0"
    "ghanaCardError (step (VerifySettled (VerifyResolved None)) ?s1) = ''Ghana Card verification failed.''"
    using assms by (simp_all add: verify_settled_no_data [OF pending]) (simp add: s1)
  have e: "currentStep (step (VerifySettled (VerifyRejected err)) ?s1) = 0"
    "\<not> ghanaCardVerified (step (VerifySettled (VerifyRejected err)) ?s1)"
    "\<not> verifyingGhanaCard (step (VerifySettled (VerifyRejected err)) ?s1)"
    "ghanaCardError (step (VerifySettled (VerifyRejected err)) ?s1) =
       catch_message ''Ghana Card verification failed.'' err"
    "effects (step (VerifySettled (VerifyRejected err)) ?s1) =
       effects ?s1 @ [ToastError (catch_message ''Ghana Card verification failed.'' err)]"
    using assms by (simp_all add: verify_settled_rejected [OF pending]) (simp_all add: s1)
  show ?thesis
    using a b c d e catch_message_axios [of "''Ghana Card verification failed.''" body_message err_message]
    by blast
qed

lemma pageFilled0_ready:
  "formShown pageFilled0" "currentStep pageFilled0 = 0" "\<not> loading pageFilled0"
  "\<not> verifyingGhanaCard pageFilled0" "\<not> ghanaCardVerified pageFilled0"
  "validateForm 0 (formik_values pageFilled0) = []"
  by (simp_all add: pageFilled0_eq eval_defs)

theorem verification_gate_witness:
  "formShown pageFilled0 \<and> currentStep pageFilled0 = 0 \<and> \<not> loading pageFilled0 \<and>
   \<not> verifyingGhanaCard pageFilled0 \<and> \<not> ghanaCardVerified pageFilled0 \<and>
   validateForm 0 (formik_values pageFilled0) = [] \<and>
   effects (step ClickContinue pageFilled0) = [PostVerifyGhanaCard ''GHA-123456789-1''] \<and>
   currentStep (step (VerifySettled verifiedResponse) (step ClickContinue pageFilled0)) = 1 \<and>
   currentStep (step (VerifySettled notFoundResponse) (step ClickContinue pageFilled0)) = 0 \<and>
   ghanaCardError (step (VerifySettled notFoundResponse) (step ClickContinue pageFilled0)) =
     ''Not found''"
proof -
  have number: "KycFormValues.number (formik_values pageFilled0) = ''GHA-123456789-1''"
    and effects: "effects pageFilled0 = []"
    by (simp_all add: pageFilled0_eq eval_defs)
  show ?thesis
    using pageFilled0_ready
      verification_gate [OF pageFilled0_ready,
        where d = "\<lparr> verified = True, verify_data.message = None \<rparr>"]
      verification_gate [OF pageFilled0_ready,
        where d = "\<lparr> verified = False, verify_data.message = Some ''Not found'' \<rparr>"]
    by (simp add: number effects verifiedResponse_def notFoundResponse_def)
qed

text \<open>
  The claim as stated does not hold: a request that fails without a response shows the
  error's own message, here Axios's \<open>Network Error\<close>, where the claim has the generic
  message.
\<close>

theorem verification_gate_counterexample:
  "validateForm 0 (formik_values pageFilled0) = [] \<and>
   pageAwaitingVerify = step ClickContinue pageFilled0 \<and>
   currentStep (step (VerifySettled (VerifyRejected networkError)) pageAwaitingVerify) = 0 \<and>
   ghanaCardError (step (VerifySettled (VerifyRejected networkError)) pageAwaitingVerify) =
     ''Network Error'' \<and>
   ghanaCardError (step (VerifySettled (VerifyRejected networkError)) pageAwaitingVerify) \<noteq>
     spec_message None ''Ghana Card verification failed.''"
  by (simp add: pageFilled0_ready pageAwaitingVerify_def [symmetric] pageAwaitingVerify_eq
      pageFilled0_eq eval_defs networkError_def spec_message_def)

text \<open>
  The cache of the verification, while no request is in flight. With a verified card,
  Continue at step 0 on valid step-0 fields moves to step 1 at once and sends no
  request. An edit of the identity number made after a verification outcome (verified
  or failed) puts the verification state back to not started, and Continue on valid
  fields then sends the verification request again, with the new number. A verification
  that fails is not kept: the card is not verified after it, and Continue on valid
  fields sends the request again. An edit made while the request is in flight is another
  matter, taken up below.
\<close>

lemma verification_cache:
  "(formShown s \<and> currentStep s = 0 \<and> \<not> loading s \<and> verificationState s = Verified \<and>
      validateForm 0 (formik_values s) = [] \<longrightarrow>
      currentStep (step ClickContinue s) = 1 \<and> effects (step ClickContinue s) = effects s) \<and>
   (formShown s \<and> currentStep s = 0 \<and> verificationState s \<noteq> Pending \<longrightarrow>
      verificationState (step (ChangeNumber n) s) = NotStarted \<and>
      KycFormValues.number (formik_values (step (ChangeNumber n) s)) = n) \<and>
   (formShown s \<and> currentStep s = 0 \<and> \<not> loading s \<and> verificationState s \<noteq> Pending \<and>
      validateForm 0 (formik_values (step (ChangeNumber n) s)) = [] \<longrightarrow>
      effects (step ClickContinue (step (ChangeNumber n) s)) =
        effects s @ [PostVerifyGhanaCard n]) \<and>
   (verifyingGhanaCard s \<and> \<not> ghanaCardVerified s \<and> \<not> verify_succeeded out \<longrightarrow>
      \<not> ghanaCardVerified (step (VerifySettled out) s) \<and>
      verificationState (step (VerifySettled out) s) \<noteq> Verified \<and>
      verificationState (step (VerifySettled out) s) \<noteq> Pending) \<and>
   (verifyingGhanaCard s \<and> \<not> ghanaCardVerified s \<and> \<not> verify_succeeded out \<and>
      formShown s \<and> currentStep s = 0 \<and> \<not> loading s \<and> validateForm 0 (formik_values s) = [] \<longrightarrow>
      effects (step ClickContinue (step (VerifySettled out) s)) =
        effects (step (VerifySettled out) s)
          @ [PostVerifyGhanaCard (KycFormValues.number (formik_values s))])"
proof -
  have a: "currentStep (step ClickContinue s) = 1 \<and> effects (step ClickContinue s) = effects s"
    if "formShown s" "currentStep s = 0" "\<not> loading s" "verificationState s = Verified"
      "validateForm 0 (formik_values s) = []"
    using that by (simp add: step_def handleNext_def verificationState_def split: if_splits)
  have b: "verificationState (step (ChangeNumber n) s) = NotStarted \<and>
      KycFormValues.number (formik_values (step (ChangeNumber n) s)) = n"
    if "formShown s" "currentStep s = 0" "verificationState s \<noteq> Pending"
    using that by (simp add: step_def input_defs verificationState_def split: if_splits)
  have c: "effects (step ClickContinue (step (ChangeNumber n) s)) = effects s @ [PostVerifyGhanaCard n]"
    if "formShown s" "currentStep s = 0" "\<not> loading s" "verificationState s \<noteq> Pending"
      "validateForm 0 (formik_values (step (ChangeNumber n) s)) = []"
  proof -
    let ?s1 = "step (ChangeNumber n) s"
    have s1: "?s1 = changeNumber n s" using that by (simp add: step_def)
    have "formShown ?s1" "currentStep ?s1 = 0" "\<not> loading ?s1" "\<not> verifyingGhanaCard ?s1"
      "\<not> ghanaCardVerified ?s1"
      using that by (simp_all add: s1 input_defs formShown_def verificationState_def split: if_splits)
    from continue_calls_gate [OF this that(5)]
    show ?thesis by (simp add: s1 input_defs)
  qed
  have d: "\<not> ghanaCardVerified (step (VerifySettled out) s) \<and>
      verificationState (step (VerifySettled out) s) \<noteq> Verified \<and>
      verificationState (step (VerifySettled out) s) \<noteq> Pending"
    if "verifyingGhanaCard s" "\<not> ghanaCardVerified s" "\<not> verify_succeeded out"
    using that
    by (cases out rule: verify_succeeded.cases)
      (simp_all add: verify_settled_refused verify_settled_no_data verify_settled_rejected
        verificationState_def)
  have e: "effects (step ClickContinue (step (VerifySettled out) s)) =
        effects (step (VerifySettled out) s)
          @ [PostVerifyGhanaCard (KycFormValues.number (formik_values s))]"
    if "verifyingGhanaCard s" "\<not> ghanaCardVerified s" "\<not> verify_succeeded out"
      "formShown s" "currentStep s = 0" "\<not> loading s" "validateForm 0 (formik_values s) = []"
  proof -
    let ?s1 = "step (VerifySettled out) s"
    have "formShown ?s1 \<and> currentStep ?s1 = 0 \<and> \<not> loading ?s1 \<and> \<not> verifyingGhanaCard ?s1 \<and>
      \<not> ghanaCardVerified ?s1 \<and> formik_values ?s1 = formik_values s"
      using that
      by (cases out rule: verify_succeeded.cases)
        (simp_all add: verify_settled_refused verify_settled_no_data verify_settled_rejected
          formShown_def formik_values_def)
    then show ?thesis using continue_calls_gate [of ?s1] that(7) by simp
  qed
  show ?thesis using a b c d e by blast
qed

lemma pageBackAt0_eq: "pageBackAt0 = pageVerified\<lparr> currentStep := 0 \<rparr>"
  by (simp add: pageBackAt0_def pageVerified_eq pageFilled0_eq eval_defs)

lemma verification_cache_sample:
  "formShown pageBackAt0 \<and> currentStep pageBackAt0 = 0 \<and> \<not> loading pageBackAt0 \<and>
   verificationState pageBackAt0 = Verified \<and> validateForm 0 (formik_values pageBackAt0) = [] \<and>
   currentStep (step ClickContinue pageBackAt0) = 1 \<and>
   effects (step ClickContinue pageBackAt0) = [PostVerifyGhanaCard ''GHA-123456789-1''] \<and>
   verificationState (step (ChangeNumber ''GHA-000000000-0'') pageBackAt0) = NotStarted \<and>
   validateForm 0 (formik_values (step (ChangeNumber ''GHA-000000000-0'') pageBackAt0)) = [] \<and>
   effects (step ClickContinue (step (ChangeNumber ''GHA-000000000-0'') pageBackAt0)) =
     [PostVerifyGhanaCard ''GHA-123456789-1'', PostVerifyGhanaCard ''GHA-000000000-0''] \<and>
   verifyingGhanaCard pageAwaitingVerify \<and> \<not> ghanaCardVerified pageAwaitingVerify \<and>
   \<not> verify_succeeded notFoundResponse \<and>
   \<not> ghanaCardVerified (step (VerifySettled notFoundResponse) pageAwaitingVerify) \<and>
   effects (step ClickContinue (step (VerifySettled notFoundResponse) pageAwaitingVerify)) =
     [PostVerifyGhanaCard ''GHA-123456789-1'', ToastError ''Not found'',
      PostVerifyGhanaCard ''GHA-123456789-1'']"
proof -
  have cached: "formShown pageBackAt0" "currentStep pageBackAt0 = 0" "\<not> loading pageBackAt0"
    "verificationState pageBackAt0 = Verified" "validateForm 0 (formik_values pageBackAt0) = []"
    "effects pageBackAt0 = [PostVerifyGhanaCard ''GHA-123456789-1'']"
    by (simp_all add: pageBackAt0_eq pageVerified_eq pageFilled0_eq eval_defs verificationState_def)
  have edited: "validateForm 0 (formik_values (step (ChangeNumber ''GHA-000000000-0'') pageBackAt0)) = []"
    by (simp add: pageBackAt0_eq pageVerified_eq pageFilled0_eq eval_defs ghana_card_regex_def
        is_digit_def)
  have waiting: "verifyingGhanaCard pageAwaitingVerify" "\<not> ghanaCardVerified pageAwaitingVerify"
    "\<not> verify_succeeded notFoundResponse" "formShown pageAwaitingVerify"
    "currentStep pageAwaitingVerify = 0" "\<not> loading pageAwaitingVerify"
    "validateForm 0 (formik_values pageAwaitingVerify) = []"
    "KycFormValues.number (formik_values pageAwaitingVerify) = ''GHA-123456789-1''"
    by (simp_all add: pageAwaitingVerify_eq pageFilled0_eq eval_defs)
  have refused: "effects (step (VerifySettled notFoundResponse) pageAwaitingVerify) =
     [PostVerifyGhanaCard ''GHA-123456789-1'', ToastError ''Not found'']"
    by (simp add: pageAwaitingVerify_eq pageFilled0_eq eval_defs)
  show ?thesis
    using cached edited waiting refused
      verification_cache [of pageBackAt0 "''GHA-000000000-0''" notFoundResponse]
      verification_cache [of pageAwaitingVerify "''GHA-000000000-0''" notFoundResponse]
    by simp
qed

section \<open>Properties of the submission\<close>

lemma submit_calls_remote:
  assumes "formShown s" "currentStep s = 2" "\<not> loading s" "validateForm 2 (formik_values s) = []"
  shows "step ClickSubmit s =
     s\<lparr> errors := [], touched := UNIV, loading := True, error := '''', success := '''',
        submitting := Some (valuesRef s),
        effects := effects s @ [PostCompleteKyc (formData (formik_values s))] \<rparr>"
  using assms by (simp add: step_def handleSubmit_def onSubmit_def emit_def formik_values_def)

lemma kyc_settled_rejected:
  assumes "submitting s = Some r"
  shows "step (KycSettled (KycRejected err)) s =
     s\<lparr> error := catch_message ''Failed to complete KYC'' err,
        effects := effects s @ [ToastError (catch_message ''Failed to complete KYC'' err)],
        loading := False, submitting := None \<rparr>"
  using assms by (simp add: step_def handler_defs)

lemma kyc_settled_resolved:
  assumes "submitting s = Some r"
  shows "step (KycSettled (KycResolved d)) s =
     s\<lparr> fullName := js_or (full_name d) '''',
        success := js_or (kyc_data.message d) ''KYC Completed!'',
        submittedValues := Some r, showSuccessScreen := True,
        effects := effects s @ [ToastSuccess (js_or (kyc_data.message d) ''KYC Completed!'')],
        loading := False, submitting := None \<rparr>"
  using assms by (simp add: step_def handler_defs)

text \<open>
  Claim C6, as the code has it. For every submission whose request fails, the page
  ends with \<open>error\<close> set and shown in a notification, and is no longer loading: the
  message is that of the error's response body when it has a non-empty one, otherwise
  the error's own message when that is not empty, otherwise the generic fallback. The
  step index stays at step 2, the form values and every stored values object are
  unchanged, the form is still shown and the submit button is enabled again.
\<close>

theorem submission_failure:
  assumes "formShown s" "currentStep s = 2" "\<not> loading s" "validateForm 2 (formik_values s) = []"
  shows
    "effects (step ClickSubmit s) = effects s @ [PostCompleteKyc (formData (formik_values s))] \<and>
     loading (step ClickSubmit s) \<and>
     error (step (KycSettled (KycRejected err)) (step ClickSubmit s)) =
       catch_message ''Failed to complete KYC'' err \<and>
     effects (step (KycSettled (KycRejected err)) (step ClickSubmit s)) =
       effects (step ClickSubmit s) @ [ToastError (catch_message ''Failed to complete KYC'' err)] \<and>
     catch_message ''Failed to complete KYC'' (AxiosError body_message err_message) =
       (if body_message \<noteq> None \<and> body_message \<noteq> Some [] then the body_message
        else if err_message \<noteq> [] then err_message else ''Failed to complete KYC'') \<and>
     \<not> loading (step (KycSettled (KycRejected err)) (step ClickSubmit s)) \<and>
     currentStep (step (KycSettled (KycRejected err)) (step ClickSubmit s)) = 2 \<and>
     formik_values (step (KycSettled (KycRejected err)) (step ClickSubmit s)) = formik_values s \<and>
     store (step (KycSettled (KycRejected err)) (step ClickSubmit s)) = store s \<and>
     submittedValues (step (KycSettled (KycRejected err)) (step ClickSubmit s)) = submittedValues s \<and>
     formShown (step (KycSettled (KycRejected err)) (step ClickSubmit s)) \<and>
     enabled ClickSubmit (step (KycSettled (KycRejected err)) (step ClickSubmit s))"
proof -
  let ?s1 = "step ClickSubmit s"
  have s1: "?s1 = s\<lparr> errors := [], touched := UNIV, loading := True, error := '''', success := '''',
        submitting := Some (valuesRef s),
        effects := effects s @ [PostCompleteKyc (formData (formik_values s))] \<rparr>"
    using assms by (rule submit_calls_remote)
  have inflight: "submitting ?s1 = Some (valuesRef s)" by (simp add: s1)
  show ?thesis
    using assms
    using catch_message_axios [of "''Failed to complete KYC''" body_message err_message]
    by (simp add: kyc_settled_rejected [OF inflight] del: catch_message.simps)
      (simp add: s1 formik_values_def formShown_def)
qed

lemma pageFilled2_ready:
  "formShown pageFilled2" "currentStep pageFilled2 = 2" "\<not> loading pageFilled2"
  "validateForm 2 (formik_values pageFilled2) = []" "formik_values pageFilled2 = sampleValues"
  by (simp_all add: pageFilled2_eq pageVerified_eq pageFilled0_eq eval_defs)

theorem submission_failure_witness:
  "formShown pageFilled2 \<and> currentStep pageFilled2 = 2 \<and> \<not> loading pageFilled2 \<and>
   validateForm 2 (formik_values pageFilled2) = [] \<and>
   error (step (KycSettled (KycRejected (AxiosError (Some ''Name mismatch'') ''Request failed with status code 400'')))
     (step ClickSubmit pageFilled2)) = ''Name mismatch'' \<and>
   currentStep (step (KycSettled (KycRejected (AxiosError (Some ''Name mismatch'') ''Request failed with status code 400'')))
     (step ClickSubmit pageFilled2)) = 2 \<and>
   formik_values (step (KycSettled (KycRejected (AxiosError (Some ''Name mismatch'') ''Request failed with status code 400'')))
     (step ClickSubmit pageFilled2)) = sampleValues"
  using pageFilled2_ready
    submission_failure [OF pageFilled2_ready(1-4),
      of "AxiosError (Some ''Name mismatch'') ''Request failed with status code 400''"]
  by (simp add: js_or_def)

text \<open>
  The claim as stated does not hold: a submission that gets no response shows the
  error's own message, here Axios's \<open>Network Error\<close>, where the claim has the generic
  fallback.
\<close>

theorem submission_failure_counterexample:
  "pageSubmitting = step ClickSubmit pageFilled2 \<and>
   validateForm 2 (formik_values pageFilled2) = [] \<and>
   error (step (KycSettled (KycRejected networkError)) pageSubmitting) = ''Network Error'' \<and>
   error (step (KycSettled (KycRejected networkError)) pageSubmitting) \<noteq>
     spec_message None ''Failed to complete KYC''"
  by (simp add: pageFilled2_ready pageSubmitting_def [symmetric] pageSubmitting_eq pageFilled2_eq
      pageVerified_eq pageFilled0_eq eval_defs networkError_def spec_message_def)

text \<open>
  A response of a successful submission that has a body: a missing field of the body
  gives a default and no error. Without \<open>full_name\<close> the full name of the summary is the
  empty string, without \<open>message\<close> the success message, and the notification, is
  \<open>KYC Completed!\<close>. In both cases the summary is shown, with the submitted values, and
  \<open>error\<close> is left as it was.
\<close>

lemma submission_defaults:
  "submitting s = Some r \<Longrightarrow>
     showSuccessScreen (step (KycSettled (KycResolved d)) s) \<and>
     submittedValues (step (KycSettled (KycResolved d)) s) = Some r \<and>
     error (step (KycSettled (KycResolved d)) s) = error s \<and>
     \<not> loading (step (KycSettled (KycResolved d)) s) \<and>
     (full_name d = None \<longrightarrow> fullName (step (KycSettled (KycResolved d)) s) = '''') \<and>
     (full_name d = Some name \<longrightarrow> fullName (step (KycSettled (KycResolved d)) s) = name) \<and>
     (kyc_data.message d = None \<longrightarrow>
        success (step (KycSettled (KycResolved d)) s) = ''KYC Completed!'' \<and>
        effects (step (KycSettled (KycResolved d)) s) = effects s @ [ToastSuccess ''KYC Completed!'']) \<and>
     (kyc_data.message d = Some msg \<and> msg \<noteq> [] \<longrightarrow>
        success (step (KycSettled (KycResolved d)) s) = msg)"
  by (simp add: kyc_settled_resolved js_or_def)

lemma submission_defaults_sample:
  "submitting pageSubmitting = Some 5 \<and>
   showSuccessScreen (step (KycSettled (KycResolved \<lparr> kyc_data.message = None, full_name = None \<rparr>)) pageSubmitting) \<and>
   fullName (step (KycSettled (KycResolved \<lparr> kyc_data.message = None, full_name = None \<rparr>)) pageSubmitting) = '''' \<and>
   success (step (KycSettled (KycResolved \<lparr> kyc_data.message = None, full_name = None \<rparr>)) pageSubmitting) =
     ''KYC Completed!'' \<and>
   fullName (step (KycSettled (KycResolved \<lparr> kyc_data.message = Some ''KYC Completed!'', full_name = Some ''Jane Doe'' \<rparr>))
     pageSubmitting) = ''Jane Doe''"
proof -
  have h: "submitting pageSubmitting = Some 5"
    by (simp add: pageSubmitting_eq)
  show ?thesis
    using h
      submission_defaults [OF h, of "\<lparr> kyc_data.message = None, full_name = None \<rparr>"]
      submission_defaults [OF h,
        of "\<lparr> kyc_data.message = Some ''KYC Completed!'', full_name = Some ''Jane Doe'' \<rparr>" "''Jane Doe''"]
    by simp
qed

lemma kyc_settled_no_data:
  assumes "submitting s = Some r"
  shows "step (KycSettled (KycNoData msg)) s =
     s\<lparr> fullName := '''', error := msg, effects := effects s @ [ToastError msg],
        loading := False, submitting := None \<rparr>"
  using assms by (simp add: step_def handler_defs)

text \<open>
  Claim C10 asks that, for every response of a successful submission, the fields the
  body lacks give defaults and no error. The code does not do so for a successful
  response whose body is null, which lacks both fields: line 208 reads the full name
  through \<open>res?.data?.full_name\<close> and sets it to the empty string, but line 209 reads
  \<open>res.data.message\<close> unguarded and raises. After the sample run up to the press on
  the submit button, such a response ends in the \<open>catch\<close> block: \<open>error\<close> and the
  notification are the text of the TypeError, whatever it is, no success message is
  set, the summary is not shown and no values are kept for it.
\<close>

theorem null_body_submission_fails:
  "pageSubmitting =
     run [ChooseFront (Some 1), ChooseBack (Some 2), ChangeNumber ''GHA-123456789-1'',
          ClickContinue, VerifySettled verifiedResponse,
          ChangeMomoNumber ''244000000'', ClickContinue, ChooseSelfie (Some 3), ClickSubmit]
       initialPage \<and>
   enabled (KycSettled (KycNoData msg)) pageSubmitting \<and>
   error (step (KycSettled (KycNoData msg)) pageSubmitting) = msg \<and>
   effects (step (KycSettled (KycNoData msg)) pageSubmitting) =
     effects pageSubmitting @ [ToastError msg] \<and>
   fullName (step (KycSettled (KycNoData msg)) pageSubmitting) = '''' \<and>
   success (step (KycSettled (KycNoData msg)) pageSubmitting) = '''' \<and>
   \<not> showSuccessScreen (step (KycSettled (KycNoData msg)) pageSubmitting) \<and>
   submittedValues (step (KycSettled (KycNoData msg)) pageSubmitting) = None \<and>
   formShown (step (KycSettled (KycNoData msg)) pageSubmitting) \<and>
   currentStep (step (KycSettled (KycNoData msg)) pageSubmitting) = 2"
proof -
  have trace: "pageSubmitting =
     run [ChooseFront (Some 1), ChooseBack (Some 2), ChangeNumber ''GHA-123456789-1'',
          ClickContinue, VerifySettled verifiedResponse,
          ChangeMomoNumber ''244000000'', ClickContinue, ChooseSelfie (Some 3), ClickSubmit]
       initialPage"
    by (simp add: pageSubmitting_def pageFilled2_def pageVerified_def pageAwaitingVerify_def
        pageFilled0_def run_def)
  have inflight: "submitting pageSubmitting = Some 5"
    by (simp add: pageSubmitting_eq)
  have outcome: "enabled (KycSettled (KycNoData msg)) pageSubmitting \<and>
     error (step (KycSettled (KycNoData msg)) pageSubmitting) = msg \<and>
     effects (step (KycSettled (KycNoData msg)) pageSubmitting) =
       effects pageSubmitting @ [ToastError msg] \<and>
     fullName (step (KycSettled (KycNoData msg)) pageSubmitting) = '''' \<and>
     success (step (KycSettled (KycNoData msg)) pageSubmitting) = '''' \<and>
     \<not> showSuccessScreen (step (KycSettled (KycNoData msg)) pageSubmitting) \<and>
     submittedValues (step (KycSettled (KycNoData msg)) pageSubmitting) = None \<and>
     formShown (step (KycSettled (KycNoData msg)) pageSubmitting) \<and>
     currentStep (step (KycSettled (KycNoData msg)) pageSubmitting) = 2"
    by (simp add: kyc_settled_no_data [OF inflight] inflight formShown_def)
      (simp add: pageSubmitting_eq pageFilled2_eq pageVerified_eq pageFilled0_eq initialPage_def)
  from trace outcome show ?thesis by (rule conjI)
qed

section \<open>Properties of the snapshot\<close>

lemma sampleRun_eq: "run sampleRun initialPage = pageSubmitting"
  by (simp add: sampleRun_def pageSubmitting_def pageFilled2_def pageVerified_def
      pageAwaitingVerify_def pageFilled0_def run_def)

lemma refs_allocated_setValues:
  "refs_allocated s \<Longrightarrow> refs_allocated (setValues v s)"
  by (auto simp add: refs_allocated_def setValues_def split: option.splits)

lemma refs_allocated_mutate: "refs_allocated s \<Longrightarrow> refs_allocated (mutate m s)"
  by (cases m) (auto simp add: refs_allocated_def input_defs split: option.splits)

lemma refs_allocated_step: "refs_allocated s \<Longrightarrow> refs_allocated (step e s)"
  by (cases e)
    (auto simp add: refs_allocated_def step_def input_defs handler_defs Let_def
      split: option.splits verify_outcome.splits kyc_outcome.splits)

lemma refs_allocated_run: "refs_allocated s \<Longrightarrow> refs_allocated (run es s)"
  unfolding run_def by (induction es arbitrary: s) (simp_all add: refs_allocated_step)

lemma refs_allocated_initial: "refs_allocated initialPage"
  by (simp add: refs_allocated_def initialPage_def)

lemma store_mutate:
  "r < nextRef s \<Longrightarrow>
     store (mutate m s) r = store s r \<and> nextRef s \<le> nextRef (mutate m s) \<and>
     submittedValues (mutate m s) = submittedValues s"
  by (cases m) (simp_all add: input_defs)

lemma snapshot_fold_mutate:
  "submittedValues s = Some r \<Longrightarrow> r < nextRef s \<Longrightarrow>
     snapshot (fold mutate ms s) = Some (store s r)"
proof (induction ms arbitrary: s)
  case Nil
  then show ?case by (simp add: snapshot_def)
next
  case (Cons m ms)
  have "submittedValues (mutate m s) = Some r" "r < nextRef (mutate m s)"
    "store (mutate m s) r = store s r"
    using Cons.prems store_mutate [of r s m] by simp_all
  with Cons.IH [of "mutate m s"] show ?case by simp
qed

lemma summary_step:
  assumes "showSuccessScreen s" "submittedValues s = Some r" "submitting s = None"
  shows "showSuccessScreen (step e s) \<and> submittedValues (step e s) = Some r \<and>
     submitting (step e s) = None \<and> store (step e s) = store s"
  using assms
  by (cases e)
    (auto simp add: step_def formShown_def handleNext_resume_def ghanaCardFailed_def emit_def
      split: verify_outcome.splits option.splits)

lemma snapshot_run:
  "showSuccessScreen s \<Longrightarrow> submittedValues s = Some r \<Longrightarrow> submitting s = None \<Longrightarrow>
     snapshot (run es s) = Some (store s r)"
proof (induction es arbitrary: s)
  case Nil
  then show ?case by (simp add: snapshot_def run_def)
next
  case (Cons e es)
  from summary_step [OF Cons.prems, of e] Cons.IH [of "step e s"]
  show ?case by (simp add: run_def)
qed

text \<open>
  Claim C4. The values the summary shows are insulated from the form: once a submission
  has succeeded, the snapshot behind the summary (identity number, mobile-money fields
  and the three file references) is the values object that was submitted, and it stays
  what it was under every later mutation of the form values and under every later
  event. The page keeps the reference it was given and makes no copy; the snapshot is
  safe because every mutation of the form makes a new values object.
\<close>

theorem snapshot_immutable:
  "submitting (run es0 initialPage) = Some r \<Longrightarrow>
     snapshot (step (KycSettled (KycResolved d)) (run es0 initialPage)) =
       Some (store (run es0 initialPage) r) \<and>
     snapshot (fold mutate ms (step (KycSettled (KycResolved d)) (run es0 initialPage))) =
       Some (store (run es0 initialPage) r) \<and>
     snapshot (run es (step (KycSettled (KycResolved d)) (run es0 initialPage))) =
       Some (store (run es0 initialPage) r)"
proof -
  assume inflight: "submitting (run es0 initialPage) = Some r"
  let ?s = "run es0 initialPage"
  let ?s' = "step (KycSettled (KycResolved d)) ?s"
  have "refs_allocated ?s" by (simp add: refs_allocated_run refs_allocated_initial)
  with inflight have r: "r < nextRef ?s" by (simp add: refs_allocated_def)
  have s': "?s' = ?s\<lparr> fullName := js_or (full_name d) '''',
        success := js_or (kyc_data.message d) ''KYC Completed!'',
        submittedValues := Some r, showSuccessScreen := True,
        effects := effects ?s @ [ToastSuccess (js_or (kyc_data.message d) ''KYC Completed!'')],
        loading := False, submitting := None \<rparr>"
    using inflight by (rule kyc_settled_resolved)
  have facts: "showSuccessScreen ?s'" "submittedValues ?s' = Some r" "submitting ?s' = None"
    "store ?s' = store ?s" "nextRef ?s' = nextRef ?s"
    by (simp_all add: s')
  show ?thesis
    using snapshot_fold_mutate [of ?s' r ms] snapshot_run [of ?s' r es] facts r
    by (simp add: snapshot_def)
qed

theorem snapshot_immutable_witness:
  "submitting (run sampleRun initialPage) = Some 5 \<and>
   valuesRef (run sampleRun initialPage) = 5 \<and>
   snapshot (step (KycSettled (KycResolved janeDoe)) (run sampleRun initialPage)) =
     Some sampleValues \<and>
   snapshot (fold mutate [SetNumber ''GHA-000000000-0'', SetSelfie None, SetMomoNumber ''0'']
     (step (KycSettled (KycResolved janeDoe)) (run sampleRun initialPage))) = Some sampleValues \<and>
   KycFormValues.number (formik_values
     (fold mutate [SetNumber ''GHA-000000000-0'', SetSelfie None, SetMomoNumber ''0'']
       (step (KycSettled (KycResolved janeDoe)) (run sampleRun initialPage)))) = ''GHA-000000000-0''"
proof -
  have h: "submitting (run sampleRun initialPage) = Some 5"
    and v: "valuesRef (run sampleRun initialPage) = 5"
    and st: "store (run sampleRun initialPage) 5 = sampleValues"
    by (simp_all add: sampleRun_eq pageSubmitting_eq pageFilled2_eq)
  have live: "KycFormValues.number (formik_values
     (fold mutate [SetNumber ''GHA-000000000-0'', SetSelfie None, SetMomoNumber ''0'']
       (step (KycSettled (KycResolved janeDoe)) (run sampleRun initialPage)))) = ''GHA-000000000-0''"
    by (simp add: input_defs)
  show ?thesis
    using h v live
      snapshot_immutable [OF h, of janeDoe
        "[SetNumber ''GHA-000000000-0'', SetSelfie None, SetMomoNumber ''0'']" "[]"]
    by (simp add: st)
qed

section \<open>A number edited while its check is in flight\<close>

text \<open>
  Claim C3 asks that a success of a verification request be disregarded when the number
  was changed while the request was in flight. The code does not do so. The request
  carried the number \<open>GHA-123456789-1\<close> and no other request was sent; the user then
  typed \<open>GHA-000000000-0\<close>; when the request succeeded the page recorded the card as
  verified and moved to step 1, with the number that was never checked.
\<close>

theorem stale_verification_accepted:
  "pageStale =
     run [ChooseFront (Some 1), ChooseBack (Some 2), ChangeNumber ''GHA-123456789-1'',
          ClickContinue, ChangeNumber ''GHA-000000000-0'', VerifySettled verifiedResponse]
       initialPage \<and>
   effects pageStale = [PostVerifyGhanaCard ''GHA-123456789-1''] \<and>
   KycFormValues.number (formik_values pageStale) = ''GHA-000000000-0'' \<and>
   ghanaCardVerified pageStale \<and>
   verificationState pageStale = Verified \<and>
   currentStep pageStale = 1"
proof -
  have trace: "pageStale =
     run [ChooseFront (Some 1), ChooseBack (Some 2), ChangeNumber ''GHA-123456789-1'',
          ClickContinue, ChangeNumber ''GHA-000000000-0'', VerifySettled verifiedResponse]
       initialPage"
    by (simp add: pageStale_def pageAwaitingVerify_def pageFilled0_def run_def)
  have outcome: "effects pageStale = [PostVerifyGhanaCard ''GHA-123456789-1''] \<and>
     KycFormValues.number (formik_values pageStale) = ''GHA-000000000-0'' \<and>
     ghanaCardVerified pageStale \<and>
     verificationState pageStale = Verified \<and>
     currentStep pageStale = 1"
    by (simp add: pageStale_def pageAwaitingVerify_eq pageFilled0_eq eval_defs
        verificationState_def)
  from trace outcome show ?thesis by (rule conjI)
qed

text \<open>
  Claim C2 asks that a success of the verification be kept for the unchanged identity
  number only, every edit of the number putting the verification state back to not
  started so that the next Continue sends the request again. The code does not do so for
  an edit made while the request is in flight. The edit leaves the state pending, not
  not-started; the success that then arrives for \<open>GHA-123456789-1\<close> is kept for
  \<open>GHA-000000000-0\<close>; and after a step back, Continue at step 0 on these valid fields
  finds the card verified, sends no request for the new number and moves to step 1.
\<close>

theorem stale_verification_cached:
  "pageStaleCached =
     run [ChooseFront (Some 1), ChooseBack (Some 2), ChangeNumber ''GHA-123456789-1'',
          ClickContinue, ChangeNumber ''GHA-000000000-0'', VerifySettled verifiedResponse,
          ClickBack, ClickContinue]
       initialPage \<and>
   enabled (ChangeNumber ''GHA-000000000-0'') pageAwaitingVerify \<and>
   verificationState (step (ChangeNumber ''GHA-000000000-0'') pageAwaitingVerify) = Pending \<and>
   currentStep (step ClickBack pageStale) = 0 \<and>
   verificationState (step ClickBack pageStale) = Verified \<and>
   KycFormValues.number (formik_values (step ClickBack pageStale)) = ''GHA-000000000-0'' \<and>
   validateForm 0 (formik_values (step ClickBack pageStale)) = [] \<and>
   enabled ClickContinue (step ClickBack pageStale) \<and>
   effects pageStaleCached = [PostVerifyGhanaCard ''GHA-123456789-1''] \<and>
   KycFormValues.number (formik_values pageStaleCached) = ''GHA-000000000-0'' \<and>
   currentStep pageStaleCached = 1"
proof -
  have trace: "pageStaleCached =
     run [ChooseFront (Some 1), ChooseBack (Some 2), ChangeNumber ''GHA-123456789-1'',
          ClickContinue, ChangeNumber ''GHA-000000000-0'', VerifySettled verifiedResponse,
          ClickBack, ClickContinue]
       initialPage"
    by (simp add: pageStaleCached_def pageStale_def pageAwaitingVerify_def pageFilled0_def
        run_def)
  have other: "ghana_card_regex ''GHA-000000000-0''"
    by (simp add: ghana_card_regex_def is_digit_def)
  have edit: "enabled (ChangeNumber ''GHA-000000000-0'') pageAwaitingVerify \<and>
     verificationState (step (ChangeNumber ''GHA-000000000-0'') pageAwaitingVerify) = Pending"
    by (simp add: pageAwaitingVerify_eq pageFilled0_eq eval_defs verificationState_def)
  have stepped: "currentStep (step ClickBack pageStale) = 0 \<and>
     verificationState (step ClickBack pageStale) = Verified \<and>
     KycFormValues.number (formik_values (step ClickBack pageStale)) = ''GHA-000000000-0'' \<and>
     validateForm 0 (formik_values (step ClickBack pageStale)) = [] \<and>
     enabled ClickContinue (step ClickBack pageStale)"
    by (simp add: pageStale_def pageAwaitingVerify_eq pageFilled0_eq eval_defs
        verificationState_def other)
  have cached: "effects pageStaleCached = [PostVerifyGhanaCard ''GHA-123456789-1''] \<and>
     KycFormValues.number (formik_values pageStaleCached) = ''GHA-000000000-0'' \<and>
     currentStep pageStaleCached = 1"
    by (simp add: pageStaleCached_def pageStale_def pageAwaitingVerify_eq pageFilled0_eq
        eval_defs other)
  show ?thesis using trace edit stepped cached by blast
qed

text \<open>
  Claim C5 asks that the submission request be sent only from a state where the
  validation of all three steps passes. Through the same stale success the page reaches
  step 1 with the malformed number \<open>123\<close>, and the submission, which validates the last
  step only, sends it.
\<close>

theorem stale_verification_submitted:
  "pageStaleSubmitted =
     run [ChooseFront (Some 1), ChooseBack (Some 2), ChangeNumber ''GHA-123456789-1'',
          ClickContinue, ChangeNumber ''123'', VerifySettled verifiedResponse,
          ChangeMomoNumber ''244000000'', ClickContinue, ChooseSelfie (Some 3), ClickSubmit]
       initialPage \<and>
   effects pageStaleSubmitted =
     [PostVerifyGhanaCard ''GHA-123456789-1'',
      PostCompleteKyc [(''number'', Text ''123''), (''ghanaCardFront'', Binary 1),
        (''ghanaCardBack'', Binary 2), (''momo_country_code'', Text ''+233''),
        (''momo_number'', Text ''244000000''), (''selfie'', Binary 3)]] \<and>
   validateForm 0 (formik_values pageStaleSubmitted) =
     [(Number, ''Invalid Ghana Card Number format'')]"
proof -
  have trace: "pageStaleSubmitted =
     run [ChooseFront (Some 1), ChooseBack (Some 2), ChangeNumber ''GHA-123456789-1'',
          ClickContinue, ChangeNumber ''123'', VerifySettled verifiedResponse,
          ChangeMomoNumber ''244000000'', ClickContinue, ChooseSelfie (Some 3), ClickSubmit]
       initialPage"
    by (simp add: pageStaleSubmitted_def pageAwaitingVerify_def pageFilled0_def run_def)
  have outcome: "effects pageStaleSubmitted =
     [PostVerifyGhanaCard ''GHA-123456789-1'',
      PostCompleteKyc [(''number'', Text ''123''), (''ghanaCardFront'', Binary 1),
        (''ghanaCardBack'', Binary 2), (''momo_country_code'', Text ''+233''),
        (''momo_number'', Text ''244000000''), (''selfie'', Binary 3)]] \<and>
     validateForm 0 (formik_values pageStaleSubmitted) =
       [(Number, ''Invalid Ghana Card Number format'')]"
    by (simp add: pageStaleSubmitted_def pageAwaitingVerify_eq pageFilled0_eq eval_defs
        ghana_card_regex_def)
  from trace outcome show ?thesis by (rule conjI)
qed

text \<open>
  Without such an edit the two Continue gates hold for the submit button: in every run
  of the events in which no step-0 field is edited while the verification request is in
  flight, a press on the submit button sends the submission only when the validation of
  all three steps passes. This is about the submit button only; the Enter key at step 0
  is evaluated after it.
\<close>

lemma gated_initial: "gated initialPage"
  by (simp add: gated_def initialPage_def)

lemma validate_other_fields:
  "validateForm 0 (v\<lparr> momo := mm \<rparr>) = validateForm 0 v"
  "validateForm 0 (v\<lparr> selfie := f \<rparr>) = validateForm 0 v"
  "validateForm 1 (v\<lparr> selfie := f \<rparr>) = validateForm 1 v"
  by (simp_all add: validateForm_0 validateForm_1)

lemma gated_step:
  assumes "gated s" "quiet e s"
  shows "gated (step e s)"
proof (cases "enabled e s")
  case False
  then show ?thesis using assms by (simp add: step_def)
next
  case True
  show ?thesis
  proof (cases e)
    case (ChangeNumber n)
    then show ?thesis
      using assms True by (simp add: step_def gated_def quiet_def input_defs)
  next
    case (ChooseFront f)
    then show ?thesis
      using assms True by (simp add: step_def gated_def quiet_def input_defs)
  next
    case (ChooseBack f)
    then show ?thesis
      using assms True by (simp add: step_def gated_def quiet_def input_defs)
  next
    case (ChangeMomoNumber n)
    then show ?thesis
      using assms True by (simp add: step_def gated_def input_defs validate_other_fields)
  next
    case (ChooseSelfie f)
    then show ?thesis
      using assms True by (simp add: step_def gated_def input_defs validate_other_fields)
  next
    case ClickContinue
    have "currentStep s = 0 \<or> currentStep s = 1"
      using assms(1) True ClickContinue by (auto simp add: gated_def)
    then show ?thesis
      using assms True ClickContinue
      by (auto simp add: step_def gated_def handleNext_def emit_def formik_values_def Let_def)
  next
    case ClickBack
    then show ?thesis
      using assms True by (auto simp add: step_def gated_def handleBack_def formik_values_def)
  next
    case ClickSubmit
    then show ?thesis
      using assms True
      by (auto simp add: step_def gated_def handleSubmit_def onSubmit_def emit_def
          formik_values_def Let_def)
  next
    case (VerifySettled out)
    then show ?thesis
      using assms True
      by (auto simp add: step_def gated_def handleNext_resume_def ghanaCardFailed_def emit_def
          formik_values_def split: verify_outcome.splits option.splits)
  next
    case (KycSettled out)
    then show ?thesis
      using assms True
      by (auto simp add: step_def gated_def onSubmit_resume_def kycFailed_def emit_def
          formik_values_def split: kyc_outcome.splits option.splits)
  qed
qed

lemma gated_run: "gated s \<Longrightarrow> quiet_run es s \<Longrightarrow> gated (run es s)"
  unfolding run_def by (induction es arbitrary: s) (simp_all add: gated_step)

lemma submit_posts_only_when_valid:
  assumes "effects (step ClickSubmit s) \<noteq> effects s"
  shows "enabled ClickSubmit s \<and> currentStep s = 2 \<and> validateForm 2 (formik_values s) = []"
  using assms
  by (auto simp add: step_def handleSubmit_def onSubmit_def emit_def Let_def split: if_splits)

lemma quiet_submission:
  assumes "quiet_run es initialPage" "effects (step ClickSubmit (run es initialPage)) \<noteq> effects (run es initialPage)"
  shows "validateForm 0 (formik_values (run es initialPage)) = [] \<and>
     validateForm 1 (formik_values (run es initialPage)) = [] \<and>
     validateForm 2 (formik_values (run es initialPage)) = []"
proof -
  have "gated (run es initialPage)" using assms(1) by (simp add: gated_run gated_initial)
  moreover note submit_posts_only_when_valid [OF assms(2)]
  ultimately show ?thesis by (simp add: gated_def)
qed

text \<open>
  The Enter key in the number input at step 0 is a second way to a submission that the
  validation of a step would refuse. On the page filled at step 0, with no request in
  flight, the submit handler validates step 0 only and sends the submission with an
  empty mobile-money number and no selfie, which the validations of steps 1 and 2
  refuse.
\<close>

lemma enter_at_step0_submits:
  "formShown pageFilled0 \<and> currentStep pageFilled0 = 0 \<and> submitting pageFilled0 = None \<and>
   effects (handleSubmit pageFilled0) =
     [PostCompleteKyc [(''number'', Text ''GHA-123456789-1''), (''ghanaCardFront'', Binary 1),
        (''ghanaCardBack'', Binary 2), (''momo_country_code'', Text ''+233''),
        (''momo_number'', Text '''')]] \<and>
   validateForm 1 (formik_values pageFilled0) = [(MomoNumber, ''Phone number is required'')] \<and>
   validateForm 2 (formik_values pageFilled0) = [(Selfie, ''Selfie is required'')]"
  by (simp add: pageFilled0_eq eval_defs)

section \<open>Properties of the file previews\<close>

lemmas preview_defs =
  mount_preview_def render_preview_def unmount_preview_def run_effect_def run_cleanup_def
  createObjectURL_def revokeObjectURL_def

lemma previews_ok_initial: "previews_ok no_previews"
  by (simp add: previews_ok_def no_previews_def shown_def owned_def handles_def)

lemma other_slot_unchanged: "j \<noteq> op_slot p \<Longrightarrow> slots (preview_step p m) j = slots m j"
  by (cases p) (auto simp add: Let_def split: option.splits prod.splits)

lemma shown_owned: "previews_ok m \<Longrightarrow> shown m k = owned m k"
  by (auto simp add: previews_ok_def shown_def owned_def split: option.splits)

lemma slot_inv:
  assumes "previews_ok m" "slots m k = Some h"
  shows "preview h = cleanup h" "dep h = None \<Longrightarrow> cleanup h = None"
    "dep h = Some f \<Longrightarrow> cleanup h \<noteq> None"
  using assms by (auto simp add: previews_ok_def)

lemma owned_live: "previews_ok m \<Longrightarrow> owned m k = Some u \<Longrightarrow> u \<in> live (urls m)"
  by (auto simp add: previews_ok_def handles_def)

lemma owned_step:
  assumes "previews_ok m"
  shows "owned (preview_step p m) = (owned m)(op_slot p := next_handle m p)"
proof (rule ext)
  fix j
  show "owned (preview_step p m) j = ((owned m)(op_slot p := next_handle m p)) j"
  proof (cases "j = op_slot p")
    case False
    then show ?thesis using other_slot_unchanged [of j p m] by (simp add: owned_def)
  next
    case True
    show ?thesis
    proof (cases p)
      case (Teardown k)
      then show ?thesis using True by (simp add: owned_def next_handle_def split: option.splits)
    next
      case (Assign k f)
      show ?thesis
      proof (cases "slots m k")
        case None
        then show ?thesis
          using Assign True by (cases f) (auto simp add: owned_def changes_file_def next_handle_def preview_defs)
      next
        case (Some h)
        show ?thesis
        proof (cases "f = dep h")
          case same: True
          have "f = None \<Longrightarrow> cleanup h = None"
            using same slot_inv(2) [OF assms Some] by simp
          then show ?thesis
            using Assign Some True same
            by (cases f) (auto simp add: owned_def changes_file_def next_handle_def preview_defs)
        next
          case False
          then show ?thesis
            using Assign Some True
            by (cases f)
              (auto simp add: owned_def changes_file_def next_handle_def preview_defs
                split: option.splits)
        qed
      qed
    qed
  qed
qed

lemma live_step:
  assumes "previews_ok m"
  shows "live (urls (preview_step p m)) =
     (live (urls m) - set_option (owned m (op_slot p))) \<union> set_option (next_handle m p)"
proof (cases p)
  case (Teardown k)
  then show ?thesis by (auto simp add: owned_def next_handle_def preview_defs split: option.splits)
next
  case (Assign k f)
  show ?thesis
  proof (cases "slots m k")
    case None
    then show ?thesis
      using Assign by (cases f) (auto simp add: owned_def changes_file_def next_handle_def preview_defs)
  next
    case (Some h)
    show ?thesis
    proof (cases "f = dep h")
      case True
      have "owned m k = cleanup h" using Some by (simp add: owned_def)
      moreover have "f = None \<Longrightarrow> cleanup h = None"
        using True slot_inv(2) [OF assms Some] by simp
      moreover have "\<And>u. cleanup h = Some u \<Longrightarrow> u \<in> live (urls m)"
        using owned_live [OF assms, of k] Some by (simp add: owned_def)
      ultimately show ?thesis
        using Assign Some True
        by (cases f) (auto simp add: changes_file_def next_handle_def preview_defs)
    next
      case False
      then show ?thesis
        using Assign Some
        by (cases f) (auto simp add: owned_def changes_file_def next_handle_def preview_defs split: option.splits)
    qed
  qed
qed

lemma owned_below_fresh: "previews_ok m \<Longrightarrow> owned m k = Some u \<Longrightarrow> u < fresh (urls m)"
  using owned_live [of m k u] by (simp add: previews_ok_def)

lemma fresh_run_cleanup: "fresh (run_cleanup h t) = fresh t"
  by (simp add: run_cleanup_def revokeObjectURL_def split: option.splits)

lemma fresh_run_effect:
  "fresh (snd (run_effect f h t)) = (if f = None then fresh t else fresh t + 1)"
  by (cases f) (simp_all add: run_effect_def createObjectURL_def)

lemma urls_assign:
  "urls (preview_step (Assign k f) m) =
     (case slots m k of
        None \<Rightarrow> snd (mount_preview f (urls m))
      | Some h0 \<Rightarrow> snd (render_preview f h0 (urls m)))"
  by (simp add: Let_def split: option.splits prod.splits)

lemma fresh_assign:
  "fresh (urls (preview_step (Assign k f) m)) =
     (if changes_file m k f \<and> f \<noteq> None then fresh (urls m) + 1 else fresh (urls m))"
  by (cases f)
    (auto simp add: urls_assign changes_file_def mount_preview_def render_preview_def
      fresh_run_effect fresh_run_cleanup simp del: preview_step.simps split: option.splits)

lemma fresh_step:
  assumes "previews_ok m"
  shows "fresh (urls m) \<le> fresh (urls (preview_step p m))"
    and "next_handle m p = Some u \<Longrightarrow> u < fresh (urls (preview_step p m))"
proof -
  show mono: "fresh (urls m) \<le> fresh (urls (preview_step p m))"
  proof (cases p)
    case (Assign k f)
    then show ?thesis by (simp only: fresh_assign split: if_splits) simp
  next
    case (Teardown k)
    then show ?thesis
      by (simp add: unmount_preview_def fresh_run_cleanup split: option.splits)
  qed
  show "u < fresh (urls (preview_step p m))" if "next_handle m p = Some u"
  proof (cases p)
    case (Teardown k)
    then show ?thesis using that by (simp add: next_handle_def)
  next
    case (Assign k f)
    show ?thesis
    proof (cases "changes_file m k f")
      case True
      have "f \<noteq> None" "u = fresh (urls m)"
        using that Assign True by (simp_all add: next_handle_def split: if_splits)
      then show ?thesis using Assign True by (simp only: fresh_assign) simp
    next
      case False
      have "owned m k = Some u"
        using that Assign False by (simp add: next_handle_def split: if_splits)
      then have "u < fresh (urls m)" by (rule owned_below_fresh [OF assms])
      then show ?thesis using mono by simp
    qed
  qed
qed

lemma fresh_not_owned: "previews_ok m \<Longrightarrow> owned m j \<noteq> Some (fresh (urls m))"
  using owned_below_fresh [of m j "fresh (urls m)"] by auto

lemma next_handle_cases:
  "next_handle m p = None \<or> next_handle m p = owned m (op_slot p) \<or>
   next_handle m p = Some (fresh (urls m))"
  by (cases p) (auto simp add: next_handle_def)

lemma slot_step:
  assumes "previews_ok m" "slots (preview_step p m) j = Some h"
  shows "preview h = cleanup h \<and> (cleanup h = None \<longleftrightarrow> dep h = None)"
proof (cases "j = op_slot p")
  case False
  then show ?thesis
    using assms other_slot_unchanged [of j p m] by (auto simp add: previews_ok_def)
next
  case True
  show ?thesis
  proof (cases p)
    case (Teardown k)
    then show ?thesis using True assms(2) by (auto split: option.splits)
  next
    case (Assign k f)
    show ?thesis
    proof (cases "slots m k")
      case None
      then show ?thesis
        using Assign True assms(2) by (cases f) (auto simp add: preview_defs)
    next
      case (Some h0)
      show ?thesis
      proof (cases "f = dep h0")
        case same: True
        then have "h = h0" using Assign Some True assms(2) by (simp add: preview_defs)
        then show ?thesis using assms(1) Some by (auto simp add: previews_ok_def)
      next
        case False
        then show ?thesis
          using Assign Some True assms(2) by (cases f) (auto simp add: preview_defs)
      qed
    qed
  qed
qed

lemma previews_ok_step:
  assumes "previews_ok m"
  shows "previews_ok (preview_step p m)"
proof -
  let ?m' = "preview_step p m"
  let ?k = "op_slot p"
  have own: "owned ?m' = (owned m)(?k := next_handle m p)" by (rule owned_step [OF assms])
  have liv: "live (urls ?m') = (live (urls m) - set_option (owned m ?k)) \<union> set_option (next_handle m p)"
    by (rule live_step [OF assms])
  have inj: "\<And>k j u. owned m k = Some u \<Longrightarrow> owned m j = Some u \<Longrightarrow> k = j"
    using assms unfolding previews_ok_def by blast
  have lh: "live (urls m) = handles m" using assms by (simp add: previews_ok_def)
  have nf: "\<And>j. owned m j \<noteq> Some (fresh (urls m))" by (rule fresh_not_owned [OF assms])
  have c1: "\<forall>k h. slots ?m' k = Some h \<longrightarrow>
        preview h = cleanup h \<and> (cleanup h = None \<longleftrightarrow> dep h = None)"
    using slot_step [OF assms] by blast
  have c3: "\<forall>k j u. owned ?m' k = Some u \<and> owned ?m' j = Some u \<longrightarrow> k = j"
  proof (intro allI impI, elim conjE)
    fix k j u
    assume a: "owned ?m' k = Some u" and b: "owned ?m' j = Some u"
    have new: "owned m i = Some u \<Longrightarrow> i = ?k" if "next_handle m p = Some u" for i
      using next_handle_cases [of m p] that inj [of i u ?k] nf [of i] by auto
    show "k = j"
    proof (cases "k = ?k")
      case True
      then have "next_handle m p = Some u" using a by (simp add: own)
      then show ?thesis using b True new [of j] by (auto simp add: own split: if_splits)
    next
      case False
      then have k: "owned m k = Some u" using a by (simp add: own)
      show ?thesis
      proof (cases "j = ?k")
        case True
        then have "next_handle m p = Some u" using b by (simp add: own)
        then show ?thesis using k True new [of k] by simp
      next
        case False
        then have "owned m j = Some u" using b by (simp add: own)
        then show ?thesis using k inj by blast
      qed
    qed
  qed
  have c2: "live (urls ?m') = handles ?m'"
  proof (rule set_eqI)
    fix u
    have old: "u \<in> live (urls m) \<longleftrightarrow> (\<exists>j. owned m j = Some u)"
      by (simp add: lh handles_def)
    have new: "owned m i = Some u \<Longrightarrow> i = ?k" if "next_handle m p = Some u" for i
      using next_handle_cases [of m p] that inj [of i u ?k] nf [of i] by auto
    have "u \<in> handles ?m' \<longleftrightarrow> next_handle m p = Some u \<or> (\<exists>j. j \<noteq> ?k \<and> owned m j = Some u)"
      by (auto simp add: handles_def own split: if_splits)
    moreover have "u \<in> live (urls ?m') \<longleftrightarrow>
        ((\<exists>j. owned m j = Some u) \<and> owned m ?k \<noteq> Some u) \<or> next_handle m p = Some u"
      by (auto simp add: liv old)
    moreover have "(\<exists>j. owned m j = Some u) \<and> owned m ?k \<noteq> Some u \<longleftrightarrow>
        (\<exists>j. j \<noteq> ?k \<and> owned m j = Some u)"
      using inj by metis
    ultimately show "u \<in> live (urls ?m') \<longleftrightarrow> u \<in> handles ?m'" by blast
  qed
  have c4: "\<forall>u \<in> live (urls ?m'). u < fresh (urls ?m')"
  proof
    fix u assume "u \<in> live (urls ?m')"
    then consider "u \<in> live (urls m)" | "next_handle m p = Some u"
      by (auto simp add: liv)
    then show "u < fresh (urls ?m')"
    proof cases
      case 1
      then have "u < fresh (urls m)" using assms by (simp add: previews_ok_def)
      then show ?thesis using fresh_step(1) [OF assms, of p] by simp
    next
      case 2
      then show ?thesis by (rule fresh_step(2) [OF assms])
    qed
  qed
  show ?thesis unfolding previews_ok_def using c1 c2 c3 c4 by blast
qed

lemma previews_ok_run: "previews_ok m \<Longrightarrow> previews_ok (preview_run ps m)"
  unfolding preview_run_def by (induction ps arbitrary: m) (simp_all add: previews_ok_step)

lemma previews_ok_reachable: "previews_ok (preview_run ps no_previews)"
  by (simp add: previews_ok_run previews_ok_initial)

text \<open>
  Claim C8. After every sequence of assignments and teardowns, nothing is leaked or
  dangling: every slot shows exactly the handle it owns, and the live URLs are exactly
  the handles the slots own. An operation on a slot leaves that slot with the handle of
  \<open>next_handle\<close> (a fresh one for a new file, none for a null file and after teardown)
  and changes the live URLs by exactly this: the handle the slot owned before is
  revoked, the new one, if any, is live. A handle replaced, removed or torn down is no
  longer live. The other slots are unchanged, and their handles stay live.
\<close>

theorem file_preview_handles:
  assumes "m = preview_run ps no_previews"
  shows
    "previews_ok m \<and> previews_ok (preview_step p m) \<and>
     shown m k = owned m k \<and> live (urls m) = handles m \<and>
     owned (preview_step p m) (op_slot p) = next_handle m p \<and>
     shown (preview_step p m) (op_slot p) = next_handle m p \<and>
     live (urls (preview_step p m)) =
       (live (urls m) - set_option (owned m (op_slot p))) \<union> set_option (next_handle m p) \<and>
     (changes_file m k (Some f) \<longrightarrow>
        next_handle m (Assign k (Some f)) = Some (fresh (urls m)) \<and>
        fresh (urls m) \<notin> live (urls m) \<and>
        (\<forall>u. owned m k = Some u \<longrightarrow> u \<notin> live (urls (preview_step (Assign k (Some f)) m)))) \<and>
     next_handle m (Assign k None) = None \<and>
     next_handle m (Teardown k) = None \<and>
     (\<forall>u. owned m k = Some u \<longrightarrow>
        u \<notin> live (urls (preview_step (Assign k None) m)) \<and>
        u \<notin> live (urls (preview_step (Teardown k) m))) \<and>
     (j \<noteq> op_slot p \<longrightarrow>
        slots (preview_step p m) j = slots m j \<and>
        (\<forall>u. owned m j = Some u \<longrightarrow> u \<in> live (urls (preview_step p m))))"
proof -
  have ok: "previews_ok m" using assms by (simp add: previews_ok_reachable)
  have ok': "previews_ok (preview_step p m)" by (rule previews_ok_step [OF ok])
  have a: "shown m k = owned m k" by (rule shown_owned [OF ok])
  have b: "live (urls m) = handles m" using ok by (simp add: previews_ok_def)
  have c: "owned (preview_step p m) (op_slot p) = next_handle m p"
    by (simp add: owned_step [OF ok])
  have d: "shown (preview_step p m) (op_slot p) = next_handle m p"
    using shown_owned [OF ok', of "op_slot p"] c by simp
  have e: "live (urls (preview_step p m)) =
       (live (urls m) - set_option (owned m (op_slot p))) \<union> set_option (next_handle m p)"
    by (rule live_step [OF ok])
  have nf: "fresh (urls m) \<notin> live (urls m)"
    using ok by (auto simp add: previews_ok_def)
  have f: "next_handle m (Assign k (Some f)) = Some (fresh (urls m)) \<and>
        fresh (urls m) \<notin> live (urls m) \<and>
        (\<forall>u. owned m k = Some u \<longrightarrow> u \<notin> live (urls (preview_step (Assign k (Some f)) m)))"
    if "changes_file m k (Some f)"
    using that nf fresh_not_owned [OF ok, of k]
    by (auto simp add: live_step [OF ok] next_handle_def simp del: preview_step.simps)
  have g: "next_handle m (Assign k None) = None" "next_handle m (Teardown k) = None"
    by (simp_all add: next_handle_def)
  have h: "\<forall>u. owned m k = Some u \<longrightarrow>
        u \<notin> live (urls (preview_step (Assign k None) m)) \<and>
        u \<notin> live (urls (preview_step (Teardown k) m))"
    by (auto simp add: live_step [OF ok] g simp del: preview_step.simps)
  have i: "slots (preview_step p m) j = slots m j \<and>
        (\<forall>u. owned m j = Some u \<longrightarrow> u \<in> live (urls (preview_step p m)))"
    if "j \<noteq> op_slot p"
  proof -
    have same: "slots (preview_step p m) j = slots m j" by (rule other_slot_unchanged [OF that])
    then have "owned (preview_step p m) j = owned m j" by (simp add: owned_def)
    then show ?thesis using same owned_live [OF ok', of j] by simp
  qed
  show ?thesis using ok ok' a b c d e f g h i by blast
qed

lemma samplePreviews_facts:
  "owned samplePreviews FrontSlot = Some 0" "owned samplePreviews BackSlot = Some 1"
  "shown samplePreviews BackSlot = Some 1"
  "live (urls samplePreviews) = {0, 1}" "fresh (urls samplePreviews) = 2"
  "changes_file samplePreviews FrontSlot (Some 7)"
  by (auto simp add: samplePreviews_def preview_run_def no_previews_def preview_defs owned_def
      shown_def changes_file_def)

theorem file_preview_handles_witness:
  "samplePreviews = preview_run [Assign FrontSlot (Some 1), Assign BackSlot (Some 2)] no_previews \<and>
   live (urls samplePreviews) = {0, 1} \<and>
   owned samplePreviews FrontSlot = Some 0 \<and> owned samplePreviews BackSlot = Some 1 \<and>
   changes_file samplePreviews FrontSlot (Some 7) \<and>
   shown (preview_step (Assign FrontSlot (Some 7)) samplePreviews) FrontSlot = Some 2 \<and>
   live (urls (preview_step (Assign FrontSlot (Some 7)) samplePreviews)) = {1, 2} \<and>
   shown (preview_step (Assign FrontSlot None) samplePreviews) FrontSlot = None \<and>
   live (urls (preview_step (Assign FrontSlot None) samplePreviews)) = {1} \<and>
   live (urls (preview_step (Teardown FrontSlot) samplePreviews)) = {1} \<and>
   slots (preview_step (Teardown FrontSlot) samplePreviews) BackSlot = slots samplePreviews BackSlot"
proof -
  have run: "samplePreviews =
      preview_run [Assign FrontSlot (Some 1), Assign BackSlot (Some 2)] no_previews"
    by (rule samplePreviews_def)
  have neq: "BackSlot \<noteq> op_slot (Teardown FrontSlot)" by simp
  show ?thesis
    using run samplePreviews_facts
      file_preview_handles [OF run, of "Assign FrontSlot (Some 7)" FrontSlot 7 BackSlot]
      file_preview_handles [OF run, of "Assign FrontSlot None" FrontSlot 7 BackSlot]
      file_preview_handles [OF run, of "Teardown FrontSlot" FrontSlot 7 BackSlot]
    by (auto simp del: preview_step.simps)
qed

end
